theory Spec2Isabelle
  imports Main "HOL-Library.AList"
begin

section \<open>Strings and objects of the host language\<close>

text \<open>
  The extension is written in TypeScript. A string is modelled as its sequence of UTF-16
  code units, so that \<open>trim\<close> and the regular expression class \<open>\s\<close> can be given
  their ECMAScript meaning on every string, not only on ASCII. A JSON object is an
  association list in insertion order: \<open>o[k]\<close> is \<open>map_of o k\<close>, the assignment
  \<open>o[k] = v\<close> is \<open>AList.update k v o\<close> (in place when the key exists, appended
  otherwise), \<open>delete o[k]\<close> is \<open>AList.delete k o\<close>, and \<open>Object.keys(o)\<close> is
  \<open>map fst o\<close>. The list holds the own properties. Every object here comes from
  \<open>JSON.parse\<close>, an object literal or a spread, so its prototype is
  \<open>Object.prototype\<close>, whose members a property read \<open>o[k]\<close> and the \<open>in\<close> operator
  also find. The numeric-key ordering of \<open>Object.keys\<close> is outside the model.
\<close>

type_synonym jsstring = "nat list"

type_synonym 'v jsobject = "(jsstring \<times> 'v) list"

abbreviation js :: "string \<Rightarrow> jsstring" where
  "js s \<equiv> map of_char s"

text \<open>
  The own property names of \<open>Object.prototype\<close>: eleven methods and the accessor
  \<open>__proto__\<close>, whose getter returns the prototype (an object) and whose setter changes
  the prototype instead of creating a property.
\<close>

definition prototypeFunctionNames :: "jsstring list" where
  "prototypeFunctionNames =
     [js ''constructor'', js ''__defineGetter__'', js ''__defineSetter__'',
      js ''hasOwnProperty'', js ''__lookupGetter__'', js ''__lookupSetter__'',
      js ''isPrototypeOf'', js ''propertyIsEnumerable'', js ''toString'', js ''valueOf'',
      js ''toLocaleString'']"

definition isPrototypeMember :: "jsstring \<Rightarrow> bool" where
  "isPrototypeMember key \<longleftrightarrow> key \<in> set prototypeFunctionNames \<or> key = js ''__proto__''"

text \<open>What the read \<open>o[key]\<close> finds: the own value, else an inherited method, else the
  prototype object (for \<open>__proto__\<close>), else \<open>undefined\<close>.\<close>

datatype 'v property = Own 'v | InheritedFunction | InheritedPrototype | Undefined

definition getProperty :: "'v jsobject \<Rightarrow> jsstring \<Rightarrow> 'v property" where
  "getProperty obj key =
     (case map_of obj key of
        Some v \<Rightarrow> Own v
      | None \<Rightarrow>
          if key \<in> set prototypeFunctionNames then InheritedFunction
          else if key = js ''__proto__'' then InheritedPrototype
          else Undefined)"

text \<open>\<open>key in o\<close>.\<close>

definition hasProperty :: "'v jsobject \<Rightarrow> jsstring \<Rightarrow> bool" where
  "hasProperty obj key \<longleftrightarrow> getProperty obj key \<noteq> Undefined"

text \<open>
  The assignment \<open>o[key] = v\<close> of an object \<open>v\<close>. For \<open>__proto__\<close> on an object that
  has no own property of that name the inherited setter runs: the prototype of \<open>o\<close>
  changes and no property is created. (No function of the model reads such an object
  through its prototype afterwards.)
\<close>

definition setProperty :: "jsstring \<Rightarrow> 'v \<Rightarrow> 'v jsobject \<Rightarrow> 'v jsobject" where
  "setProperty key v obj =
     (if key = js ''__proto__'' \<and> map_of obj key = None then obj
      else AList.update key v obj)"

text \<open>The exceptions that the functions of \<open>extension.ts\<close> let escape.\<close>

datatype js_exception = TypeError | SyntaxError | IOError | NoWorkspaceError

text \<open>ECMAScript \<open>WhiteSpace\<close> and \<open>LineTerminator\<close> code units: what \<open>\s\<close> matches
  and what \<open>String.prototype.trim\<close> removes.\<close>

definition isWhiteSpace :: "nat \<Rightarrow> bool" where
  "isWhiteSpace c \<longleftrightarrow>
     c \<in> set [9, 10, 11, 12, 13, 32, 160, 5760, 8232, 8233, 8239, 8287, 12288, 65279]
     \<or> (8192 \<le> c \<and> c \<le> 8202)"

definition trim :: "jsstring \<Rightarrow> jsstring" where
  "trim s = rev (dropWhile isWhiteSpace (rev (dropWhile isWhiteSpace s)))"

definition startsWith :: "jsstring \<Rightarrow> jsstring \<Rightarrow> bool" where
  "startsWith s p \<longleftrightarrow> take (length p) s = p"

text \<open>\<open>defaultValue.replace(/^Default:\s*/, '')\<close>: the label \<open>Default:\<close> at the very
  start, together with the whole run of white space that follows it.\<close>

definition stripDefaultLabel :: "jsstring \<Rightarrow> jsstring" where
  "stripDefaultLabel d =
     (if startsWith d (js ''Default:'')
      then dropWhile isWhiteSpace (drop (length (js ''Default:'')) d)
      else d)"

text \<open>\<open>.replace(/\r$/, '')\<close>: without the \<open>g\<close> and \<open>m\<close> flags the pattern matches
  once, at the end of the input, so one final carriage return (code unit 13) goes.\<close>

definition stripTrailingCR :: "jsstring \<Rightarrow> jsstring" where
  "stripTrailingCR s = (if s \<noteq> [] \<and> last s = 13 then butlast s else s)"

definition cleanDefault :: "jsstring \<Rightarrow> jsstring" where
  "cleanDefault d = stripTrailingCR (stripDefaultLabel d)"

section \<open>Server definitions and the merge of environment variables\<close>

text \<open>\<open>interface McpServer\<close>; every member is optional.\<close>

record McpServer =
  command :: "jsstring option"
  args :: "jsstring list option"
  env :: "jsstring jsobject option"
  description :: "jsstring option"
  tags :: "jsstring list option"
  httpUrl :: "jsstring option"
  headers :: "jsstring jsobject option"

type_synonym servers = "McpServer jsobject"

text \<open>
  \<open>mergeEnvironmentVariables\<close> of \<open>extension.ts\<close>. The loop over
  \<open>Object.entries(server.env)\<close> tests \<open>envVars[key] && envVars[key].trim() !== ''\<close>
  with no check of the type: an own value is a string (truthy when not empty); an
  inherited member is truthy and has no \<open>trim\<close>, so the call throws a \<open>TypeError\<close>
  and the function returns nothing. The assignment \<open>mergedServer.env[key] = ...\<close> meets
  the own property that the spread copied, and replaces its value.
\<close>

fun mergeEntries ::
    "jsstring jsobject \<Rightarrow> (jsstring \<times> jsstring) list \<Rightarrow> jsstring jsobject
      \<Rightarrow> js_exception + jsstring jsobject" where
  "mergeEntries envVars [] mergedEnv = Inr mergedEnv"
| "mergeEntries envVars ((key, defaultValue) # rest) mergedEnv =
     (case getProperty envVars key of
        Own v \<Rightarrow>
          mergeEntries envVars rest
            (AList.update key
               (if v \<noteq> [] \<and> trim v \<noteq> [] then v else cleanDefault defaultValue) mergedEnv)
      | InheritedFunction \<Rightarrow> Inl TypeError
      | InheritedPrototype \<Rightarrow> Inl TypeError
      | Undefined \<Rightarrow>
          mergeEntries envVars rest (AList.update key (cleanDefault defaultValue) mergedEnv))"

definition mergeEnvironmentVariables ::
    "McpServer \<Rightarrow> jsstring jsobject \<Rightarrow> js_exception + McpServer" where
  "mergeEnvironmentVariables server envVars =
     (case env server of
        None \<Rightarrow> Inr server
      | Some e \<Rightarrow>
          if e = [] then Inr server
          else (case mergeEntries envVars e e of
                  Inl exn \<Rightarrow> Inl exn
                | Inr mergedEnv \<Rightarrow> Inr (server\<lparr>env := Some mergedEnv\<rparr>)))"

text \<open>
  \<open>ServerLoader.mergeEnvironmentVariables\<close>. Its test has the guard
  \<open>typeof envVars[key] === 'string'\<close>, which only an own value passes (an inherited
  member is a function or an object), so the workspace value is looked up among the own
  properties and nothing throws. The server and the variables arrive at their declared
  types, so the guards on their shape and on non-string defaults do not fire; the guard
  \<open>!key\<close> does fire for the empty key, whose entry is then left as copied.
\<close>

definition resolveValue :: "jsstring jsobject \<Rightarrow> jsstring \<Rightarrow> jsstring \<Rightarrow> jsstring" where
  "resolveValue envVars key defaultValue =
     (case map_of envVars key of
        Some v \<Rightarrow> if v \<noteq> [] \<and> trim v \<noteq> [] then v else cleanDefault defaultValue
      | None \<Rightarrow> cleanDefault defaultValue)"

definition ServerLoader_mergeEnvironmentVariables ::
    "McpServer \<Rightarrow> jsstring jsobject \<Rightarrow> McpServer" where
  "ServerLoader_mergeEnvironmentVariables server envVars =
     (case env server of
        None \<Rightarrow> server
      | Some e \<Rightarrow>
          if e = [] then server
          else server\<lparr>env := Some
            (fold (\<lambda>(key, defaultValue) mergedEnv.
                     if key = [] then mergedEnv
                     else AList.update key (resolveValue envVars key defaultValue) mergedEnv) e e)\<rparr>)"

section \<open>Recommendations and their validation\<close>

text \<open>
  A recommendation list is untrusted JSON. A member that is missing or is not a string
  is \<open>NotAString\<close>; an element that is falsy or not an object is \<open>NotAnObject\<close>.
\<close>

datatype js_field = NotAString | Str jsstring

datatype recommendation = NotAnObject | Rec js_field js_field

datatype rec_input = Nullish | NotAnArray | Arr "recommendation list"

text \<open>The predicate of \<open>recommendations.filter\<close>: a non-blank string \<open>serverId\<close> and a
  non-empty string \<open>reason\<close>.\<close>

fun validRecommendation :: "recommendation \<Rightarrow> bool" where
  "validRecommendation NotAnObject = False"
| "validRecommendation (Rec NotAString r) = False"
| "validRecommendation (Rec (Str s) r) =
     (if s = [] \<or> trim s = [] then False
      else (case r of NotAString \<Rightarrow> False | Str t \<Rightarrow> t \<noteq> []))"

fun serverIdOf :: "recommendation \<Rightarrow> jsstring" where
  "serverIdOf (Rec (Str s) r) = s"
| "serverIdOf other = []"

text \<open>\<open>ServerLoader.validateServerIds\<close>: the loop keeps, in order, the ids that pass the
  string check again and for which \<open>masterServers[serverId]\<close> is truthy: an own entry
  (an object) or a member inherited from \<open>Object.prototype\<close>.\<close>

fun validateServerIds :: "jsstring list \<Rightarrow> servers \<Rightarrow> jsstring list" where
  "validateServerIds [] masterServers = []"
| "validateServerIds (serverId # rest) masterServers =
     (if serverId = [] \<or> trim serverId = [] then validateServerIds rest masterServers
      else if getProperty masterServers serverId \<noteq> Undefined
        then serverId # validateServerIds rest masterServers
      else validateServerIds rest masterServers)"

section \<open>The workspace and its files\<close>

text \<open>
  The files are outside the program, so the model carries them as state. Each constructor
  of a file type is one branch the loaders take: the bundled catalog
  \<open>config/master-servers.json\<close>, the workspace documents \<open>env-vars.json\<close> and
  \<open>mcp.json\<close>, and the hook document.
\<close>

datatype master_src =
    MasterUnreadable | MasterBlank | MasterBadJson | MasterNotObject | MasterNoServers
  | MasterDoc servers

datatype env_src =
    EnvUnreadable | EnvBadJson | EnvNull | EnvNotObject | EnvNoVariables
  | EnvDoc "jsstring jsobject"

datatype mcp_state = Absent | Unparseable | Malformed | Doc servers

text \<open>\<open>interface KiroHookConfig\<close>, with the nested \<open>when\<close> and \<open>then\<close> flattened.\<close>

record KiroHookConfig =
  enabled :: bool
  name :: jsstring
  hookDescription :: jsstring
  version :: jsstring
  whenType :: jsstring
  whenPatterns :: "jsstring list"
  thenType :: jsstring
  thenPrompt :: jsstring

datatype hook_state = HookAbsent | HookUnparseable | HookIncomplete | HookDoc KiroHookConfig

text \<open>
  What the file system does during one save is decided by the environment: \<open>mkdir\<close> may
  fail, \<open>writeFile\<close> may throw (leaving the file untouched, \<open>None\<close>, or in the given
  state, for instance truncated) or return (with the written document on disk, \<open>None\<close>,
  or with something else there when the read-back looks). The state holds the answers
  for the saves to come; when none is left every step succeeds.
\<close>

datatype 'f fs_step = MkdirFails | WriteThrows "'f option" | WriteReturns "'f option"

definition stepThrows :: "'f fs_step \<Rightarrow> bool" where
  "stepThrows s = (case s of MkdirFails \<Rightarrow> True | WriteThrows left \<Rightarrow> True | WriteReturns found \<Rightarrow> False)"

definition leavesFileUntouched :: "'f fs_step \<Rightarrow> bool" where
  "leavesFileUntouched s =
     (case s of MkdirFails \<Rightarrow> True | WriteThrows left \<Rightarrow> left = None | WriteReturns found \<Rightarrow> False)"

definition takeStep :: "'f fs_step list \<Rightarrow> 'f fs_step \<times> 'f fs_step list" where
  "takeStep steps = (case steps of [] \<Rightarrow> (WriteReturns None, []) | s # rest \<Rightarrow> (s, rest))"

datatype master_error =
    InvalidContext | NotReadable | EmptyFile | ParseFailed | InvalidStructure | MissingServers

datatype agent_error = MissingContext | InvalidFormat | AllInvalid | NoneConfigured

datatype write_error = NoWorkspaceFolder | MkdirFailed | WriteFailed

text \<open>The messages the user is shown (\<open>vscode.window.show...Message\<close>).\<close>

datatype notification =
    InfoNoRecommendations
  | ErrorAgentAnalysis agent_error
  | WarningNoValidServers
  | ErrorFileRead master_error
  | ErrorNoWorkspace
  | ErrorConfigWrite write_error
  | InfoLoaded "jsstring list" "recommendation list"
  | ErrorHookInvalid
  | InfoHookCreated

datatype severity = Information | Warning | Failure

fun severityOf :: "notification \<Rightarrow> severity" where
  "severityOf InfoNoRecommendations = Information"
| "severityOf (ErrorAgentAnalysis e) = Failure"
| "severityOf WarningNoValidServers = Warning"
| "severityOf (ErrorFileRead e) = Failure"
| "severityOf ErrorNoWorkspace = Failure"
| "severityOf (ErrorConfigWrite e) = Failure"
| "severityOf (InfoLoaded ids recs) = Information"
| "severityOf ErrorHookInvalid = Failure"
| "severityOf InfoHookCreated = Information"

fun isSuccess :: "notification \<Rightarrow> bool" where
  "isSuccess (InfoLoaded ids recs) = True"
| "isSuccess other = False"

record ExtensionContext =
  extensionPath :: jsstring

record world =
  workspace :: bool
  master_file :: master_src
  env_file :: env_src
  mcp_file :: mcp_state
  mcp_steps :: "mcp_state fs_step list"
  mcp_writes :: "servers list"
  hook_file :: hook_state
  hook_steps :: "hook_state fs_step list"
  hook_writes :: "KiroHookConfig list"
  shown :: "notification list"

text \<open>\<open>mcp_writes\<close> and \<open>hook_writes\<close> record every document handed to \<open>writeFile\<close>
  for \<open>mcp.json\<close> and for the hook, whether the call then returns or throws.\<close>

section \<open>The loader of recommended servers (\<open>serverLoader.ts\<close>)\<close>

text \<open>\<open>ServerLoader.loadMasterServers\<close>: every failure is shown to the user and thrown.\<close>

definition ServerLoader_loadMasterServers ::
    "ExtensionContext option \<Rightarrow> world \<Rightarrow> world \<times> (master_error + servers)" where
  "ServerLoader_loadMasterServers context w =
     (let failed = (\<lambda>e. (w\<lparr>shown := shown w @ [ErrorFileRead e]\<rparr>, Inl e)) in
      case context of
        None \<Rightarrow> failed InvalidContext
      | Some c \<Rightarrow>
          if extensionPath c = [] then failed InvalidContext
          else (case master_file w of
                  MasterUnreadable \<Rightarrow> failed NotReadable
                | MasterBlank \<Rightarrow> failed EmptyFile
                | MasterBadJson \<Rightarrow> failed ParseFailed
                | MasterNotObject \<Rightarrow> failed InvalidStructure
                | MasterNoServers \<Rightarrow> failed MissingServers
                | MasterDoc masterServers \<Rightarrow> (w, Inr masterServers)))"

text \<open>\<open>ServerLoader.loadWorkspaceEnvVars\<close> never throws; only \<open>variables\<close> of the
  result is used by its caller, so only that member is returned.\<close>

definition ServerLoader_loadWorkspaceEnvVars :: "world \<Rightarrow> jsstring jsobject" where
  "ServerLoader_loadWorkspaceEnvVars w =
     (if \<not> workspace w then []
      else (case env_file w of
              EnvUnreadable \<Rightarrow> []
            | EnvBadJson \<Rightarrow> []
            | EnvNull \<Rightarrow> []
            | EnvNotObject \<Rightarrow> []
            | EnvNoVariables \<Rightarrow> []
            | EnvDoc variables \<Rightarrow> variables))"

text \<open>\<open>ServerLoader.loadWorkspaceMcpConfig\<close>: the \<open>mcpServers\<close> of the document, empty
  whenever the document cannot be used.\<close>

definition ServerLoader_loadWorkspaceMcpConfig :: "world \<Rightarrow> servers" where
  "ServerLoader_loadWorkspaceMcpConfig w =
     (if \<not> workspace w then []
      else (case mcp_file w of
              Absent \<Rightarrow> []
            | Unparseable \<Rightarrow> []
            | Malformed \<Rightarrow> []
            | Doc mcpServers \<Rightarrow> mcpServers))"

text \<open>The read-back at the end of \<open>ServerLoader.saveWorkspaceMcpConfig\<close>: what the
  inner \<open>try\<close> throws, if anything, for the content found on disk.\<close>

datatype verify_issue =
    ReadBackFailed | ReadBackUnparseable | ReadBackInvalidStructure | CountMismatch nat nat

definition verifyWritten :: "servers \<Rightarrow> mcp_state \<Rightarrow> verify_issue option" where
  "verifyWritten config onDisk =
     (case onDisk of
        Absent \<Rightarrow> Some ReadBackFailed
      | Unparseable \<Rightarrow> Some ReadBackUnparseable
      | Malformed \<Rightarrow> Some ReadBackInvalidStructure
      | Doc mcpServers \<Rightarrow>
          if length mcpServers \<noteq> length config
          then Some (CountMismatch (length config) (length mcpServers))
          else None)"

text \<open>The save either throws, after showing the error, or returns; a returning save
  carries the verification error that its inner \<open>catch\<close> printed on the console, if
  there was one.\<close>

datatype save_result = SaveThrows write_error | SaveReturns "verify_issue option"

definition ServerLoader_saveWorkspaceMcpConfig ::
    "servers \<Rightarrow> world \<Rightarrow> world \<times> save_result" where
  "ServerLoader_saveWorkspaceMcpConfig config w =
     (if \<not> workspace w
      then (w\<lparr>shown := shown w @ [ErrorNoWorkspace, ErrorConfigWrite NoWorkspaceFolder]\<rparr>,
            SaveThrows NoWorkspaceFolder)
      else (case takeStep (mcp_steps w) of
              (MkdirFails, rest) \<Rightarrow>
                (w\<lparr>mcp_steps := rest, shown := shown w @ [ErrorConfigWrite MkdirFailed]\<rparr>,
                 SaveThrows MkdirFailed)
            | (WriteThrows left, rest) \<Rightarrow>
                (w\<lparr>mcp_file := (case left of None \<Rightarrow> mcp_file w | Some f \<Rightarrow> f),
                   mcp_steps := rest,
                   mcp_writes := mcp_writes w @ [config],
                   shown := shown w @ [ErrorConfigWrite WriteFailed]\<rparr>,
                 SaveThrows WriteFailed)
            | (WriteReturns found, rest) \<Rightarrow>
                (let onDisk = (case found of None \<Rightarrow> Doc config | Some f \<Rightarrow> f) in
                 (w\<lparr>mcp_file := onDisk,
                    mcp_steps := rest,
                    mcp_writes := mcp_writes w @ [config]\<rparr>,
                  SaveReturns (verifyWritten config onDisk)))))"

text \<open>
  The loop of \<open>loadRecommendedServers\<close> that builds \<open>newConfig\<close>. An own catalog
  entry is merged and assigned. An inherited method fails \<open>typeof server !== 'object'\<close>
  and is skipped. For \<open>__proto__\<close> the read gives \<open>Object.prototype\<close>, which passes
  the checks, comes back from the merge as it is (it has no \<open>env\<close>), and is assigned
  through the setter: no property is created.
\<close>

fun configureServers ::
    "jsstring list \<Rightarrow> servers \<Rightarrow> jsstring jsobject \<Rightarrow> servers \<Rightarrow> servers" where
  "configureServers [] masterServers variables newConfig = newConfig"
| "configureServers (serverId # rest) masterServers variables newConfig =
     (case getProperty masterServers serverId of
        Own server \<Rightarrow>
          configureServers rest masterServers variables
            (setProperty serverId
               (ServerLoader_mergeEnvironmentVariables server variables) newConfig)
      | InheritedFunction \<Rightarrow> configureServers rest masterServers variables newConfig
      | InheritedPrototype \<Rightarrow> configureServers rest masterServers variables newConfig
      | Undefined \<Rightarrow> configureServers rest masterServers variables newConfig)"

text \<open>\<open>ServerLoader.loadRecommendedServers\<close>; the result is the new state and the
  returned count.\<close>

definition loadRecommendedServers ::
    "rec_input \<Rightarrow> ExtensionContext option \<Rightarrow> world \<Rightarrow> world \<times> nat" where
  "loadRecommendedServers recommendations context w =
     (case context of
        None \<Rightarrow> (w\<lparr>shown := shown w @ [ErrorAgentAnalysis MissingContext]\<rparr>, 0)
      | Some c \<Rightarrow>
     (case recommendations of
        Nullish \<Rightarrow> (w\<lparr>shown := shown w @ [InfoNoRecommendations]\<rparr>, 0)
      | NotAnArray \<Rightarrow> (w\<lparr>shown := shown w @ [ErrorAgentAnalysis InvalidFormat]\<rparr>, 0)
      | Arr recs \<Rightarrow>
          if recs = [] then (w\<lparr>shown := shown w @ [InfoNoRecommendations]\<rparr>, 0)
          else
       (let validRecommendations = filter validRecommendation recs in
          if validRecommendations = []
          then (w\<lparr>shown := shown w @ [ErrorAgentAnalysis AllInvalid]\<rparr>, 0)
          else
       (case ServerLoader_loadMasterServers context w of
          (w1, Inl e) \<Rightarrow> (w1, 0)
        | (w1, Inr masterServers) \<Rightarrow>
            if masterServers = [] then (w1, 0)
            else
       (let serverIds = map serverIdOf validRecommendations;
            validServerIds = validateServerIds serverIds masterServers in
          if validServerIds = []
          then (w1\<lparr>shown := shown w1 @ [WarningNoValidServers]\<rparr>, 0)
          else
       (let finalRecommendations =
              filter (\<lambda>r. serverIdOf r \<in> set validServerIds) validRecommendations;
            variables = ServerLoader_loadWorkspaceEnvVars w1;
            newConfig = configureServers validServerIds masterServers variables [] in
          if newConfig = []
          then (w1\<lparr>shown := shown w1 @ [ErrorAgentAnalysis NoneConfigured]\<rparr>, 0)
          else
       (let originalConfig = ServerLoader_loadWorkspaceMcpConfig w1 in
          case ServerLoader_saveWorkspaceMcpConfig newConfig w1 of
            (w2, SaveThrows e) \<Rightarrow>
              (fst (ServerLoader_saveWorkspaceMcpConfig originalConfig w2), 0)
          | (w2, SaveReturns issue) \<Rightarrow>
              (w2\<lparr>shown := shown w2 @ [InfoLoaded validServerIds finalRecommendations]\<rparr>,
               length validServerIds))))))))"

section \<open>Group load and toggle (\<open>extension.ts\<close>)\<close>

text \<open>
  The functions of \<open>extension.ts\<close> cast what \<open>JSON.parse\<close> returns to the declared
  interface without a check and let every exception escape to the caller. The model
  returns the exception as a value. A document that parses but lacks the expected member
  gives \<open>None\<close> where the member is read, and using it throws a \<open>TypeError\<close>.
\<close>

text \<open>\<open>loadMasterServers(context).servers\<close>.\<close>

definition loadMasterServers :: "ExtensionContext \<Rightarrow> world \<Rightarrow> js_exception + servers option" where
  "loadMasterServers context w =
     (case master_file w of
        MasterUnreadable \<Rightarrow> Inl IOError
      | MasterBlank \<Rightarrow> Inl SyntaxError
      | MasterBadJson \<Rightarrow> Inl SyntaxError
      | MasterNotObject \<Rightarrow> Inr None
      | MasterNoServers \<Rightarrow> Inr None
      | MasterDoc masterServers \<Rightarrow> Inr (Some masterServers))"

text \<open>\<open>loadWorkspaceEnvVars().variables\<close>: the default configuration when there is no
  workspace folder or the file cannot be read or parsed.\<close>

definition loadWorkspaceEnvVars :: "world \<Rightarrow> js_exception + jsstring jsobject option" where
  "loadWorkspaceEnvVars w =
     (if \<not> workspace w then Inr (Some [])
      else (case env_file w of
              EnvUnreadable \<Rightarrow> Inr (Some [])
            | EnvBadJson \<Rightarrow> Inr (Some [])
            | EnvNull \<Rightarrow> Inl TypeError
            | EnvNotObject \<Rightarrow> Inr None
            | EnvNoVariables \<Rightarrow> Inr None
            | EnvDoc variables \<Rightarrow> Inr (Some variables)))"

text \<open>A call of \<open>mergeEnvironmentVariables\<close> whose second argument may be
  \<open>undefined\<close>: then \<open>envVars[key]\<close> throws as soon as the loop runs.\<close>

definition mergeWith :: "McpServer \<Rightarrow> jsstring jsobject option \<Rightarrow> js_exception + McpServer" where
  "mergeWith server envVars =
     (case envVars of
        Some variables \<Rightarrow> mergeEnvironmentVariables server variables
      | None \<Rightarrow>
          (case env server of
             None \<Rightarrow> Inr server
           | Some e \<Rightarrow> if e = [] then Inr server else Inl TypeError))"

text \<open>\<open>loadWorkspaceMcpConfig().mcpServers\<close>.\<close>

definition loadWorkspaceMcpConfig :: "world \<Rightarrow> servers option" where
  "loadWorkspaceMcpConfig w =
     (if \<not> workspace w then Some []
      else (case mcp_file w of
              Absent \<Rightarrow> Some []
            | Unparseable \<Rightarrow> Some []
            | Malformed \<Rightarrow> None
            | Doc mcpServers \<Rightarrow> Some mcpServers))"

text \<open>\<open>saveWorkspaceMcpConfig\<close> of \<open>extension.ts\<close>: no notification, no read-back.\<close>

definition saveWorkspaceMcpConfig :: "servers \<Rightarrow> world \<Rightarrow> world \<times> (js_exception + unit)" where
  "saveWorkspaceMcpConfig config w =
     (if \<not> workspace w then (w, Inl NoWorkspaceError)
      else (case takeStep (mcp_steps w) of
              (MkdirFails, rest) \<Rightarrow> (w\<lparr>mcp_steps := rest\<rparr>, Inl IOError)
            | (WriteThrows left, rest) \<Rightarrow>
                (w\<lparr>mcp_file := (case left of None \<Rightarrow> mcp_file w | Some f \<Rightarrow> f),
                   mcp_steps := rest,
                   mcp_writes := mcp_writes w @ [config]\<rparr>,
                 Inl IOError)
            | (WriteReturns found, rest) \<Rightarrow>
                (w\<lparr>mcp_file := (case found of None \<Rightarrow> Doc config | Some f \<Rightarrow> f),
                   mcp_steps := rest,
                   mcp_writes := mcp_writes w @ [config]\<rparr>,
                 Inr ())))"

record ServerGroup =
  groupName :: jsstring
  groupDescription :: jsstring
  groupServers :: "jsstring list"
  icon :: jsstring

text \<open>
  The loop of \<open>loadServerGroup\<close> over \<open>group.servers\<close>. The test
  \<open>masterServers.servers[serverId]\<close> is truthy for an own entry and for an inherited
  member. For an inherited member \<open>envVars.variables\<close> is still evaluated, the merge
  returns its argument at once (no \<open>env\<close>), and the assignment leaves nothing in the
  written document: a function value is dropped by \<open>JSON.stringify\<close>, and
  \<open>__proto__\<close> goes through the setter.
\<close>

fun groupConfig ::
    "jsstring list \<Rightarrow> servers option \<Rightarrow> js_exception + jsstring jsobject option \<Rightarrow> servers
      \<Rightarrow> js_exception + servers" where
  "groupConfig [] masterServers envVars newConfig = Inr newConfig"
| "groupConfig (serverId # rest) masterServers envVars newConfig =
     (case masterServers of
        None \<Rightarrow> Inl TypeError
      | Some catalog \<Rightarrow>
          (case getProperty catalog serverId of
             Undefined \<Rightarrow> groupConfig rest masterServers envVars newConfig
           | InheritedFunction \<Rightarrow>
               (case envVars of
                  Inl e \<Rightarrow> Inl e
                | Inr variables \<Rightarrow> groupConfig rest masterServers envVars newConfig)
           | InheritedPrototype \<Rightarrow>
               (case envVars of
                  Inl e \<Rightarrow> Inl e
                | Inr variables \<Rightarrow> groupConfig rest masterServers envVars newConfig)
           | Own server \<Rightarrow>
               (case envVars of
                  Inl e \<Rightarrow> Inl e
                | Inr variables \<Rightarrow>
                    (case mergeWith server variables of
                       Inl e \<Rightarrow> Inl e
                     | Inr serverWithEnv \<Rightarrow>
                         groupConfig rest masterServers envVars
                           (setProperty serverId serverWithEnv newConfig)))))"

definition loadServerGroup ::
    "ServerGroup \<Rightarrow> ExtensionContext \<Rightarrow> world \<Rightarrow> world \<times> (js_exception + unit)" where
  "loadServerGroup serverGroup context w =
     (case loadMasterServers context w of
        Inl e \<Rightarrow> (w, Inl e)
      | Inr masterServers \<Rightarrow>
          (case groupConfig (groupServers serverGroup) masterServers (loadWorkspaceEnvVars w) [] of
             Inl e \<Rightarrow> (w, Inl e)
           | Inr newConfig \<Rightarrow> saveWorkspaceMcpConfig newConfig w))"

text \<open>\<open>toggleServer\<close>: the test is \<open>serverId in currentConfig.mcpServers\<close>, which also
  holds for the name of an inherited member; \<open>delete\<close> removes an own property only.\<close>

definition toggleServer ::
    "jsstring \<Rightarrow> McpServer \<Rightarrow> world \<Rightarrow> world \<times> (js_exception + unit)" where
  "toggleServer serverId server w =
     (case loadWorkspaceMcpConfig w of
        None \<Rightarrow> (w, Inl TypeError)
      | Some currentConfig \<Rightarrow>
          if hasProperty currentConfig serverId
          then saveWorkspaceMcpConfig (AList.delete serverId currentConfig) w
          else (case loadWorkspaceEnvVars w of
                  Inl e \<Rightarrow> (w, Inl e)
                | Inr variables \<Rightarrow>
                    (case mergeWith server variables of
                       Inl e \<Rightarrow> (w, Inl e)
                     | Inr serverWithEnv \<Rightarrow>
                         saveWorkspaceMcpConfig
                           (setProperty serverId serverWithEnv currentConfig) w)))"

section \<open>The hook initializer (\<open>hookManager.ts\<close>)\<close>

text \<open>The first line of the prompt template; the lines that follow it in the source are
  not reproduced, since the text is only ever tested for being blank.\<close>

definition generatePrompt :: jsstring where
  "generatePrompt = js ''You are analyzing ALL design documents in this project to generate a COMPLETE MCP server configuration.''"

definition createHookConfig :: KiroHookConfig where
  "createHookConfig =
     \<lparr>enabled = False,
      name = js ''MCP Server Recommendations for Project'',
      hookDescription = js ''Analyzes all design documents in the project and generates a complete MCP server configuration based on technologies, services, and requirements across all specs. This hook is disabled by default - enable it in the Agent Hooks view to run manually.'',
      version = js ''1'',
      whenType = js ''userTriggered'',
      whenPatterns = [js ''.kiro/specs/*/design.md''],
      thenType = js ''askAgent'',
      thenPrompt = generatePrompt\<rparr>"

definition validWhenTypes :: "jsstring list" where
  "validWhenTypes =
     [js ''fileCreated'', js ''fileEdited'', js ''fileSaved'', js ''fileDeleted'',
      js ''userTriggered'']"

text \<open>\<open>HookManager.validateHookConfig\<close>, on a configuration of the declared type.\<close>

definition validateHookConfig :: "KiroHookConfig \<Rightarrow> bool" where
  "validateHookConfig config =
     (if name config = [] \<or> trim (name config) = [] then False
      else if hookDescription config = [] then False
      else if version config = [] then False
      else if whenType config = [] then False
      else if whenType config \<notin> set validWhenTypes then False
      else if whenPatterns config = [] then False
      else if thenType config = [] then False
      else if thenType config \<noteq> js ''askAgent'' then False
      else if thenPrompt config = [] \<or> trim (thenPrompt config) = [] then False
      else True)"

text \<open>\<open>HookManager.createHook\<close>: the outcome of its read-back is only printed, so it is
  not part of the result.\<close>

definition createHook :: "KiroHookConfig \<Rightarrow> world \<Rightarrow> world \<times> (js_exception + unit)" where
  "createHook config w =
     (case takeStep (hook_steps w) of
        (MkdirFails, rest) \<Rightarrow> (w\<lparr>hook_steps := rest\<rparr>, Inl IOError)
      | (WriteThrows left, rest) \<Rightarrow>
          (w\<lparr>hook_file := (case left of None \<Rightarrow> hook_file w | Some f \<Rightarrow> f),
             hook_steps := rest,
             hook_writes := hook_writes w @ [config]\<rparr>,
           Inl IOError)
      | (WriteReturns found, rest) \<Rightarrow>
          (w\<lparr>hook_file := (case found of None \<Rightarrow> HookDoc config | Some f \<Rightarrow> f),
             hook_steps := rest,
             hook_writes := hook_writes w @ [config]\<rparr>,
           Inr ()))"

text \<open>
  \<open>HookManager.ensureHook\<close>. When \<open>access(hookPath)\<close> succeeds the existing document is
  read and inspected, and whatever the inspection finds is only printed. Otherwise the
  catalog is first copied to \<open>.kiro/mcp-servers-reference.json\<close>, a file that no function
  of the model reads and whose copy never throws, so the copy leaves the state as it is.
\<close>

definition ensureHook :: "ExtensionContext \<Rightarrow> world \<Rightarrow> world" where
  "ensureHook context w =
     (if \<not> workspace w then w
      else (case hook_file w of
              HookUnparseable \<Rightarrow> w
            | HookIncomplete \<Rightarrow> w
            | HookDoc existingConfig \<Rightarrow> w
            | HookAbsent \<Rightarrow>
                (let hookConfig = createHookConfig in
                 if \<not> validateHookConfig hookConfig
                 then w\<lparr>shown := shown w @ [ErrorHookInvalid]\<rparr>
                 else (case createHook hookConfig w of
                         (w1, Inl e) \<Rightarrow> w1
                       | (w1, Inr u) \<Rightarrow> w1\<lparr>shown := shown w1 @ [InfoHookCreated]\<rparr>))))"

section \<open>The specification's wording, and sample data\<close>

text \<open>
  Two definitions follow the words of the specification rather than the code, to be
  compared with the code below. The recommended ids it calls well-formed are the
  non-empty strings; the default it promises has the prefix \<open>Default: \<close> (with its
  space) and all trailing carriage returns removed.
\<close>

fun stringServerId :: "recommendation \<Rightarrow> jsstring list" where
  "stringServerId (Rec (Str s) r) = [s]"
| "stringServerId other = []"

definition spec_wellFormedIds :: "recommendation list \<Rightarrow> servers \<Rightarrow> jsstring set" where
  "spec_wellFormedIds recs catalog =
     set (filter (\<lambda>s. s \<noteq> [] \<and> map_of catalog s \<noteq> None) (concat (map stringServerId recs)))"

definition spec_cleanDefault :: "jsstring \<Rightarrow> jsstring" where
  "spec_cleanDefault d =
     rev (dropWhile (\<lambda>c. c = 13)
       (rev (if startsWith d (js ''Default: '') then drop (length (js ''Default: '')) d else d)))"

text \<open>A server without environment variables, one with a single variable, a catalog of
  both, and a workspace in which nothing fails.\<close>

definition plainServer :: McpServer where
  "plainServer =
     \<lparr>command = Some (js ''uvx''), args = Some [js ''aws-docs-server''], env = None,
      description = Some (js ''AWS documentation''), tags = None, httpUrl = None,
      headers = None\<rparr>"

definition tokenServer :: McpServer where
  "tokenServer =
     \<lparr>command = Some (js ''npx''), args = None,
      env = Some [(js ''GITHUB_TOKEN'', js ''Default: none'' @ [13])],
      description = None, tags = None, httpUrl = None, headers = None\<rparr>"

definition sampleCatalog :: servers where
  "sampleCatalog = [(js ''aws-docs'', plainServer), (js ''github'', tokenServer)]"

definition sampleGroup :: ServerGroup where
  "sampleGroup =
     \<lparr>groupName = js ''Core'', groupDescription = js ''Core servers'',
      groupServers = [js ''aws-docs'', js ''github''], icon = js ''cloud''\<rparr>"

definition sampleContext :: ExtensionContext where
  "sampleContext = \<lparr>extensionPath = js ''/ext''\<rparr>"

definition sampleWorld :: world where
  "sampleWorld =
     \<lparr>workspace = True,
      master_file = MasterDoc sampleCatalog,
      env_file = EnvDoc [(js ''GITHUB_TOKEN'', js ''ghp_1'')],
      mcp_file = Doc [(js ''legacy'', plainServer)],
      mcp_steps = [],
      mcp_writes = [],
      hook_file = HookAbsent,
      hook_steps = [],
      hook_writes = [],
      shown = []\<rparr>"

text \<open>A catalog whose only server declares an environment variable named \<open>toString\<close>,
  a group that lists it, and a workspace with that catalog and no variables.\<close>

definition formatServer :: McpServer where
  "formatServer =
     \<lparr>command = Some (js ''npx''), args = None,
      env = Some [(js ''toString'', js ''Default: json'')],
      description = None, tags = None, httpUrl = None, headers = None\<rparr>"

definition formatGroup :: ServerGroup where
  "formatGroup =
     \<lparr>groupName = js ''Format'', groupDescription = js ''Formatting servers'',
      groupServers = [js ''format''], icon = js ''code''\<rparr>"

definition formatWorld :: world where
  "formatWorld =
     sampleWorld\<lparr>master_file := MasterDoc [(js ''format'', formatServer)], env_file := EnvDoc []\<rparr>"

section \<open>Verification\<close>

subsection \<open>The merge of environment variables\<close>

text \<open>The loop assigns to each declared key once, so on an object (distinct keys) it is
  the map over its entries.\<close>

lemma update_append_fresh:
  "k \<notin> fst ` set xs \<Longrightarrow> AList.update k v (xs @ ys) = xs @ AList.update k v ys"
  by (induction xs) auto

lemma fold_update_entries:
  fixes f :: "'k \<Rightarrow> 'v \<Rightarrow> 'v" and skip :: "'k \<Rightarrow> bool"
  defines "h \<equiv> \<lambda>(k, d). (k, if skip k then d else f k d)"
  shows "distinct (map fst (p @ s)) \<Longrightarrow>
    fold (\<lambda>(k, d) m. if skip k then m else AList.update k (f k d) m) s (map h p @ s)
      = map h (p @ s)"
proof (induction s arbitrary: p)
  case Nil
  then show ?case by simp
next
  case (Cons x s)
  obtain k d where x: "x = (k, d)" by (cases x)
  from Cons.prems have fresh: "k \<notin> fst ` set (map h p)"
    by (auto simp: x h_def image_iff split: prod.splits)
  have step: "(if skip k then map h p @ x # s
               else AList.update k (f k d) (map h p @ x # s)) = map h (p @ [x]) @ s"
    using fresh by (simp add: update_append_fresh x h_def)
  from Cons.prems have "distinct (map fst ((p @ [x]) @ s))" by simp
  from Cons.IH [OF this] have IH: "fold (\<lambda>(k, d) m. if skip k then m else AList.update k (f k d) m) s
      (map h (p @ [x]) @ s) = map h ((p @ [x]) @ s)" .
  have "fold (\<lambda>(k, d) m. if skip k then m else AList.update k (f k d) m) (x # s) (map h p @ x # s)
      = fold (\<lambda>(k, d) m. if skip k then m else AList.update k (f k d) m) s
          (if skip k then map h p @ x # s else AList.update k (f k d) (map h p @ x # s))"
    by (simp add: x)
  also have "\<dots> = map h ((p @ [x]) @ s)"
    unfolding step by (rule IH)
  finally show ?case by simp
qed

lemma fold_update_entries_all:
  "distinct (map fst e) \<Longrightarrow>
    fold (\<lambda>(k, d) m. if skip k then m else AList.update k (f k d) m) e e
      = map (\<lambda>(k, d). (k, if skip k then d else f k d)) e"
  using fold_update_entries [of "[]" e skip f] by simp

lemma map_of_map_entries:
  "map_of (map (\<lambda>(k, d). (k, g k d)) e) key = map_option (g key) (map_of e key)"
  by (induction e) auto

lemma map_fst_map_entries: "map fst (map (\<lambda>(k, d). (k, g k d)) e) = map fst e"
  by (induction e) auto

lemma trim_Nil [simp]: "trim [] = []"
  by (simp add: trim_def)

lemma resolveValue_cases:
  "resolveValue envVars key d =
     (case map_of envVars key of
        Some v \<Rightarrow> if trim v \<noteq> [] then v else stripTrailingCR (stripDefaultLabel d)
      | None \<Rightarrow> stripTrailingCR (stripDefaultLabel d))"
  by (auto simp: resolveValue_def cleanDefault_def split: option.splits)

text \<open>The merge of \<open>extension.ts\<close> returns, with the same values as the loader's,
  when no declared key without an own workspace value names a member of
  \<open>Object.prototype\<close>; otherwise it throws.\<close>

lemma getProperty_own: "map_of obj key = Some v \<Longrightarrow> getProperty obj key = Own v"
  by (simp add: getProperty_def)

lemma getProperty_plain:
  "map_of obj key = None \<Longrightarrow> \<not> isPrototypeMember key \<Longrightarrow> getProperty obj key = Undefined"
  by (simp add: getProperty_def isPrototypeMember_def)

lemma getProperty_inherited:
  "map_of obj key = None \<Longrightarrow> isPrototypeMember key \<Longrightarrow>
     getProperty obj key = InheritedFunction \<or> getProperty obj key = InheritedPrototype"
  by (auto simp: getProperty_def isPrototypeMember_def)

lemma mergeEntries_fold:
  assumes "\<forall>k\<in>fst ` set s. map_of envVars k = None \<longrightarrow> \<not> isPrototypeMember k"
  shows "mergeEntries envVars s m
           = Inr (fold (\<lambda>(k, d) m. AList.update k (resolveValue envVars k d) m) s m)"
  using assms
proof (induction s arbitrary: m)
  case Nil
  show ?case by simp
next
  case (Cons x s)
  obtain k d where x: "x = (k, d)" by (cases x)
  from Cons.prems have rest: "\<forall>k\<in>fst ` set s. map_of envVars k = None \<longrightarrow> \<not> isPrototypeMember k"
    by simp
  show ?case
  proof (cases "map_of envVars k")
    case None
    with Cons.prems have "\<not> isPrototypeMember k" by (simp add: x)
    with None have "getProperty envVars k = Undefined" by (rule getProperty_plain)
    with None show ?thesis
      by (simp add: x Cons.IH [OF rest] resolveValue_def)
  next
    case (Some v)
    then have "getProperty envVars k = Own v" by (rule getProperty_own)
    with Some show ?thesis
      by (simp add: x Cons.IH [OF rest] resolveValue_def)
  qed
qed

lemma mergeEntries_throws:
  assumes "k \<in> fst ` set s" and "map_of envVars k = None" and "isPrototypeMember k"
  shows "mergeEntries envVars s m = Inl TypeError"
  using assms(1)
proof (induction s arbitrary: m)
  case Nil
  then show ?case by simp
next
  case (Cons x s)
  obtain k' d where x: "x = (k', d)" by (cases x)
  show ?case
  proof (cases "k' = k")
    case True
    from getProperty_inherited [OF assms(2,3)] show ?thesis
      by (auto simp: x True)
  next
    case False
    with Cons.prems have "k \<in> fst ` set s" by (auto simp: x)
    from Cons.IH [OF this] show ?thesis
      by (cases "getProperty envVars k'") (simp_all add: x)
  qed
qed

lemma merged_env_extension:
  assumes "env server = Some e" and "distinct (map fst e)"
    and "\<forall>k\<in>fst ` set e. map_of envVars k = None \<longrightarrow> \<not> isPrototypeMember k"
  shows "mergeEnvironmentVariables server envVars
           = Inr (server\<lparr>env := Some (map (\<lambda>(k, d). (k, resolveValue envVars k d)) e)\<rparr>)"
proof (cases "e = []")
  case True
  with assms(1) show ?thesis by (simp add: mergeEnvironmentVariables_def)
next
  case False
  have "fold (\<lambda>(k, d) m. AList.update k (resolveValue envVars k d) m) e e
          = map (\<lambda>(k, d). (k, resolveValue envVars k d)) e"
    using fold_update_entries_all [OF assms(2), of "\<lambda>_. False" "resolveValue envVars"] by simp
  with False assms(1) show ?thesis
    by (simp add: mergeEnvironmentVariables_def mergeEntries_fold [OF assms(3)])
qed

lemma merged_env_loader:
  assumes "env server = Some e" and "distinct (map fst e)"
  shows "env (ServerLoader_mergeEnvironmentVariables server envVars)
           = Some (map (\<lambda>(k, d). (k, if k = [] then d else resolveValue envVars k d)) e)"
proof (cases "e = []")
  case True
  with assms show ?thesis by (simp add: ServerLoader_mergeEnvironmentVariables_def)
next
  case False
  have "fold (\<lambda>(k, d) m. if k = [] then m else AList.update k (resolveValue envVars k d) m) e e
          = map (\<lambda>(k, d). (k, if k = [] then d else resolveValue envVars k d)) e"
    using fold_update_entries_all [OF assms(2), of "\<lambda>k. k = []" "resolveValue envVars"] by simp
  with False assms(1) show ?thesis by (simp add: ServerLoader_mergeEnvironmentVariables_def)
qed

text \<open>
  C3, as amended. For a server that declares environment variables,
  \<open>ServerLoader.mergeEnvironmentVariables\<close> keeps the declared keys, and the value of a
  declared key is the workspace value, verbatim, when that value is not blank after
  trimming; otherwise it is the catalog default without a leading \<open>Default:\<close> label and
  the white space that follows the label, and without one final carriage return; the
  entry of the empty key stays as the catalog has it. \<open>mergeEnvironmentVariables\<close> of
  \<open>extension.ts\<close> returns a definition with the same keys and these values for every
  declared key, provided that no declared key without a workspace value is the name of a
  member of \<open>Object.prototype\<close>.
\<close>

theorem merged_env_values:
  assumes "env server = Some e" and "distinct (map fst e)" and "map_of e key = Some d"
  shows "(\<exists>e2.
        env (ServerLoader_mergeEnvironmentVariables server envVars) = Some e2
      \<and> map fst e2 = map fst e
      \<and> map_of e2 key =
          (if key = [] then Some d
           else Some (case map_of envVars key of
                  Some v \<Rightarrow> if trim v \<noteq> [] then v else stripTrailingCR (stripDefaultLabel d)
                | None \<Rightarrow> stripTrailingCR (stripDefaultLabel d))))
    \<and> ((\<forall>k\<in>fst ` set e. map_of envVars k = None \<longrightarrow> \<not> isPrototypeMember k) \<longrightarrow>
        (\<exists>merged e1.
            mergeEnvironmentVariables server envVars = Inr merged
          \<and> env merged = Some e1
          \<and> map fst e1 = map fst e
          \<and> map_of e1 key =
              Some (case map_of envVars key of
                  Some v \<Rightarrow> if trim v \<noteq> [] then v else stripTrailingCR (stripDefaultLabel d)
                | None \<Rightarrow> stripTrailingCR (stripDefaultLabel d))))"
proof (intro conjI impI)
  let ?e2 = "map (\<lambda>(k, d). (k, if k = [] then d else resolveValue envVars k d)) e"
  have 2: "env (ServerLoader_mergeEnvironmentVariables server envVars) = Some ?e2"
    using assms(1,2) by (rule merged_env_loader)
  have 3: "map fst ?e2 = map fst e" by (rule map_fst_map_entries)
  have 5: "map_of ?e2 key = Some (if key = [] then d else resolveValue envVars key d)"
    using assms(3) by (simp only: map_of_map_entries option.map)
  show "\<exists>e2.
        env (ServerLoader_mergeEnvironmentVariables server envVars) = Some e2
      \<and> map fst e2 = map fst e
      \<and> map_of e2 key =
          (if key = [] then Some d
           else Some (case map_of envVars key of
                  Some v \<Rightarrow> if trim v \<noteq> [] then v else stripTrailingCR (stripDefaultLabel d)
                | None \<Rightarrow> stripTrailingCR (stripDefaultLabel d)))"
  proof -
    have 6: "map_of ?e2 key = (if key = [] then Some d else Some (resolveValue envVars key d))"
      unfolding 5 by simp
    show ?thesis
      using 2 3 6 unfolding resolveValue_cases by blast
  qed
next
  assume safe: "\<forall>k\<in>fst ` set e. map_of envVars k = None \<longrightarrow> \<not> isPrototypeMember k"
  let ?e1 = "map (\<lambda>(k, d). (k, resolveValue envVars k d)) e"
  have 1: "mergeEnvironmentVariables server envVars = Inr (server\<lparr>env := Some ?e1\<rparr>)"
    using assms(1,2) safe by (rule merged_env_extension)
  have 3: "map fst ?e1 = map fst e" by (rule map_fst_map_entries)
  have 4: "map_of ?e1 key = Some (resolveValue envVars key d)"
    using assms(3) by (simp only: map_of_map_entries option.map)
  show "\<exists>merged e1.
            mergeEnvironmentVariables server envVars = Inr merged
          \<and> env merged = Some e1
          \<and> map fst e1 = map fst e
          \<and> map_of e1 key =
              Some (case map_of envVars key of
                  Some v \<Rightarrow> if trim v \<noteq> [] then v else stripTrailingCR (stripDefaultLabel d)
                | None \<Rightarrow> stripTrailingCR (stripDefaultLabel d))"
  proof -
    have 0: "env (server\<lparr>env := Some ?e1\<rparr>) = Some ?e1" by simp
    show ?thesis
      using 0 1 3 4 unfolding resolveValue_cases by blast
  qed
qed

text \<open>The merge at the sample server: \<open>Default: none\<close> followed by a carriage return
  becomes \<open>none\<close>.\<close>

theorem merged_env_values_witness:
  "(\<exists>e2. env (ServerLoader_mergeEnvironmentVariables tokenServer []) = Some e2
        \<and> map_of e2 (js ''GITHUB_TOKEN'') = Some (js ''none''))
   \<and> (\<exists>merged e1. mergeEnvironmentVariables tokenServer [] = Inr merged
        \<and> env merged = Some e1
        \<and> map_of e1 (js ''GITHUB_TOKEN'') = Some (js ''none''))"
proof -
  have a: "env tokenServer = Some [(js ''GITHUB_TOKEN'', js ''Default: none'' @ [13])]"
    by (simp add: tokenServer_def)
  have b: "distinct (map fst [(js ''GITHUB_TOKEN'', js ''Default: none'' @ [13])])"
    by simp
  have c: "map_of [(js ''GITHUB_TOKEN'', js ''Default: none'' @ [13])] (js ''GITHUB_TOKEN'')
             = Some (js ''Default: none'' @ [13])"
    by simp
  have d: "stripTrailingCR (stripDefaultLabel (js ''Default: none'' @ [13])) = js ''none''"
    by (simp add: stripDefaultLabel_def startsWith_def stripTrailingCR_def isWhiteSpace_def)
  have s: "\<forall>k\<in>fst ` set [(js ''GITHUB_TOKEN'', js ''Default: none'' @ [13])].
             map_of [] k = None \<longrightarrow> \<not> isPrototypeMember k"
    by (simp add: isPrototypeMember_def prototypeFunctionNames_def)
  note t = merged_env_values [OF a b c, of "[]"]
  from t [THEN conjunct1] obtain e2 where
    l: "env (ServerLoader_mergeEnvironmentVariables tokenServer []) = Some e2"
    and lv: "map_of e2 (js ''GITHUB_TOKEN'') =
          (if js ''GITHUB_TOKEN'' = [] then Some (js ''Default: none'' @ [13])
           else Some (case map_of [] (js ''GITHUB_TOKEN'') of
                  Some v \<Rightarrow> if trim v \<noteq> [] then v
                    else stripTrailingCR (stripDefaultLabel (js ''Default: none'' @ [13]))
                | None \<Rightarrow> stripTrailingCR (stripDefaultLabel (js ''Default: none'' @ [13]))))"
    by (elim exE conjE) (rule that, assumption+)
  from t [THEN conjunct2, THEN mp, OF s] obtain merged e1 where
    x: "mergeEnvironmentVariables tokenServer [] = Inr merged" "env merged = Some e1"
    and xv: "map_of e1 (js ''GITHUB_TOKEN'') =
          Some (case map_of [] (js ''GITHUB_TOKEN'') of
                  Some v \<Rightarrow> if trim v \<noteq> [] then v
                    else stripTrailingCR (stripDefaultLabel (js ''Default: none'' @ [13]))
                | None \<Rightarrow> stripTrailingCR (stripDefaultLabel (js ''Default: none'' @ [13])))"
    by (elim exE conjE) (rule that, assumption+)
  from lv have lv': "map_of e2 (js ''GITHUB_TOKEN'') = Some (js ''none'')"
    by (simp add: d [simplified])
  from xv have xv': "map_of e1 (js ''GITHUB_TOKEN'') = Some (js ''none'')"
    by (simp add: d [simplified])
  from l lv' x xv' show ?thesis by blast
qed

text \<open>C3 as stated fails: of two trailing carriage returns the code removes one, where
  the specification's wording removes both.\<close>

theorem trailing_returns_counterexample:
  "mergeEnvironmentVariables (tokenServer\<lparr>env := Some [(js ''K'', js ''v'' @ [13, 13])]\<rparr>) []
      = Inr (tokenServer\<lparr>env := Some [(js ''K'', js ''v'' @ [13])]\<rparr>)
   \<and> env (ServerLoader_mergeEnvironmentVariables
        (tokenServer\<lparr>env := Some [(js ''K'', js ''v'' @ [13, 13])]\<rparr>) [])
      = Some [(js ''K'', js ''v'' @ [13])]
   \<and> spec_cleanDefault (js ''v'' @ [13, 13]) = js ''v''"
  by (simp add: mergeEnvironmentVariables_def ServerLoader_mergeEnvironmentVariables_def
      getProperty_def prototypeFunctionNames_def
      resolveValue_def cleanDefault_def stripDefaultLabel_def startsWith_def stripTrailingCR_def
      spec_cleanDefault_def tokenServer_def)

subsection \<open>Loading recommendations\<close>

text \<open>
  C6. With an empty recommendation list \<open>loadRecommendedServers\<close> returns 0, shows the
  informational message and nothing else, and leaves the state otherwise as it was: the
  configuration document is not touched and nothing is handed to \<open>writeFile\<close>.
\<close>

theorem empty_list_is_informational:
  "loadRecommendedServers (Arr []) (Some c) w = (w\<lparr>shown := shown w @ [InfoNoRecommendations]\<rparr>, 0)
   \<and> severityOf InfoNoRecommendations = Information
   \<and> \<not> isSuccess InfoNoRecommendations
   \<and> mcp_file (fst (loadRecommendedServers (Arr []) (Some c) w)) = mcp_file w
   \<and> mcp_writes (fst (loadRecommendedServers (Arr []) (Some c) w)) = mcp_writes w"
  by (simp add: loadRecommendedServers_def)

text \<open>What validation keeps, and the keys of the configuration built from it.\<close>

lemma getProperty_defined:
  "getProperty obj key \<noteq> Undefined \<longleftrightarrow> key \<in> fst ` set obj \<or> isPrototypeMember key"
proof (cases "map_of obj key")
  case None
  then have "key \<notin> fst ` set obj" by (simp add: map_of_eq_None_iff)
  with None show ?thesis by (simp add: getProperty_def isPrototypeMember_def)
next
  case (Some v)
  then have "key \<in> fst ` set obj" by (metis map_of_eq_None_iff option.distinct(1))
  with Some show ?thesis by (simp add: getProperty_def)
qed

lemma validateServerIds_filter:
  "validateServerIds ids catalog
     = filter (\<lambda>s. trim s \<noteq> [] \<and> (s \<in> fst ` set catalog \<or> isPrototypeMember s)) ids"
proof (induction ids)
  case Nil
  show ?case by simp
next
  case (Cons s ids)
  have "trim s \<noteq> [] \<Longrightarrow> s \<noteq> []" by auto
  then show ?case using Cons.IH by (auto simp: getProperty_defined)
qed

lemma keys_setProperty:
  "fst ` set (setProperty k v obj) \<subseteq> insert k (fst ` set obj)"
  "k \<noteq> js ''__proto__'' \<Longrightarrow> fst ` set (setProperty k v obj) = insert k (fst ` set obj)"
  by (auto simp: setProperty_def dom_update)

lemma getProperty_Own_iff: "getProperty obj key = Own v \<longleftrightarrow> map_of obj key = Some v"
  by (auto simp: getProperty_def split: option.splits)

lemma configured_keys_subset:
  "fst ` set (configureServers ids catalog vars acc) \<subseteq> fst ` set acc \<union> fst ` set catalog"
proof (induction ids arbitrary: acc)
  case Nil
  show ?case by simp
next
  case (Cons s ids)
  show ?case
  proof (cases "getProperty catalog s")
    case (Own srv)
    then have "map_of catalog s = Some srv" by (simp add: getProperty_Own_iff)
    then have "s \<in> fst ` set catalog" by (metis map_of_eq_None_iff option.distinct(1))
    with Own Cons.IH [of "setProperty s (ServerLoader_mergeEnvironmentVariables srv vars) acc"]
      keys_setProperty(1) [of s "ServerLoader_mergeEnvironmentVariables srv vars" acc]
    show ?thesis by auto
  qed (use Cons.IH [of acc] in simp_all)
qed

lemma keys_configureServers:
  assumes "js ''__proto__'' \<notin> fst ` set catalog"
  shows "fst ` set (configureServers ids catalog vars acc)
     = fst ` set acc \<union> {s \<in> set ids. s \<in> fst ` set catalog}"
proof (induction ids arbitrary: acc)
  case Nil
  show ?case by simp
next
  case (Cons s ids)
  show ?case
  proof (cases "map_of catalog s")
    case None
    then have out: "s \<notin> fst ` set catalog" by (simp add: map_of_eq_None_iff)
    from None have no: "\<forall>v. getProperty catalog s \<noteq> Own v" by (simp add: getProperty_Own_iff)
    have "configureServers (s # ids) catalog vars acc = configureServers ids catalog vars acc"
      by (cases "getProperty catalog s") (use no in auto)
    with out Cons.IH [of acc] show ?thesis by auto
  next
    case (Some srv)
    then have inn: "s \<in> fst ` set catalog" by (metis map_of_eq_None_iff option.distinct(1))
    have "s \<noteq> js ''__proto__''"
    proof
      assume "s = js ''__proto__''"
      with inn assms show False by simp
    qed
    then have k: "fst ` set (setProperty s (ServerLoader_mergeEnvironmentVariables srv vars) acc)
        = insert s (fst ` set acc)"
      by (rule keys_setProperty(2))
    from Some have "getProperty catalog s = Own srv" by (simp add: getProperty_Own_iff)
    with inn k Cons.IH [of "setProperty s (ServerLoader_mergeEnvironmentVariables srv vars) acc"]
    show ?thesis by auto
  qed
qed

lemma valid_recommendation_ids:
  "set (map serverIdOf (filter validRecommendation recs))
     = {s. \<exists>t. Rec (Str s) (Str t) \<in> set recs \<and> trim s \<noteq> [] \<and> t \<noteq> []}"
proof -
  have "\<And>r. validRecommendation r \<longleftrightarrow> (\<exists>s t. r = Rec (Str s) (Str t) \<and> trim s \<noteq> [] \<and> t \<noteq> [])"
  proof -
    fix r show "validRecommendation r \<longleftrightarrow> (\<exists>s t. r = Rec (Str s) (Str t) \<and> trim s \<noteq> [] \<and> t \<noteq> [])"
      by (cases r rule: validRecommendation.cases) (auto split: js_field.splits)
  qed
  then show ?thesis by (force simp: image_iff)
qed

lemma accepted_ids:
  assumes "js ''__proto__'' \<notin> fst ` set catalog"
  shows "fst ` set (configureServers
            (validateServerIds (map serverIdOf (filter validRecommendation recs)) catalog)
            catalog vars [])
     = {s. \<exists>t. Rec (Str s) (Str t) \<in> set recs \<and> trim s \<noteq> [] \<and> t \<noteq> []
              \<and> s \<in> fst ` set catalog}"
  unfolding keys_configureServers [OF assms] validateServerIds_filter set_filter
    valid_recommendation_ids
  by auto

lemma loadMasterServers_doc:
  "extensionPath c \<noteq> [] \<Longrightarrow> master_file w = MasterDoc catalog \<Longrightarrow>
     ServerLoader_loadMasterServers (Some c) w = (w, Inr catalog)"
  by (simp add: ServerLoader_loadMasterServers_def)

lemma load_reaches_save:
  assumes c: "extensionPath c \<noteq> []" and m: "master_file w = MasterDoc catalog"
    and ids: "validateServerIds (map serverIdOf (filter validRecommendation recs)) catalog = ids"
    and cfg: "configureServers ids catalog (ServerLoader_loadWorkspaceEnvVars w) [] = newConfig"
    and n: "newConfig \<noteq> []"
  shows "loadRecommendedServers (Arr recs) (Some c) w =
     (case ServerLoader_saveWorkspaceMcpConfig newConfig w of
        (w2, SaveThrows e) \<Rightarrow>
          (fst (ServerLoader_saveWorkspaceMcpConfig (ServerLoader_loadWorkspaceMcpConfig w) w2), 0)
      | (w2, SaveReturns issue) \<Rightarrow>
          (w2\<lparr>shown := shown w2 @
             [InfoLoaded ids (filter (\<lambda>r. serverIdOf r \<in> set ids) (filter validRecommendation recs))]\<rparr>,
           length ids))"
proof -
  from cfg n have ne: "ids \<noteq> []" by auto
  with ids have v: "filter validRecommendation recs \<noteq> []" by auto
  then have r: "recs \<noteq> []" by auto
  from configured_keys_subset [of ids catalog "ServerLoader_loadWorkspaceEnvVars w" "[]"] cfg n
  have k: "catalog \<noteq> []" by auto
  show ?thesis
    unfolding loadRecommendedServers_def
    by (simp add: r v k n ne ids cfg loadMasterServers_doc [OF c m] Let_def del: filter_filter)
qed

lemma load_nothing_configured:
  assumes m: "master_file w = MasterDoc catalog"
    and cfg: "configureServers
           (validateServerIds (map serverIdOf (filter validRecommendation recs)) catalog)
           catalog (ServerLoader_loadWorkspaceEnvVars w) [] = []"
  shows "\<exists>msgs. loadRecommendedServers (Arr recs) ctx w = (w\<lparr>shown := shown w @ msgs\<rparr>, 0)
           \<and> list_all (\<lambda>n. \<not> isSuccess n) msgs
           \<and> (recs \<noteq> [] \<longrightarrow> list_all (\<lambda>n. severityOf n \<noteq> Information) msgs)
           \<and> (recs \<noteq> [] \<and> catalog \<noteq> [] \<longrightarrow> msgs \<noteq> [])
           \<and> (\<forall>c. ctx = Some c \<and> extensionPath c \<noteq> [] \<and> catalog \<noteq> []
                  \<and> filter validRecommendation recs \<noteq> [] \<longrightarrow>
                msgs = (if validateServerIds (map serverIdOf (filter validRecommendation recs))
                             catalog = []
                        then [WarningNoValidServers]
                        else [ErrorAgentAnalysis NoneConfigured]))"
proof (cases ctx)
  case None
  then show ?thesis
    by (intro exI [of _ "[ErrorAgentAnalysis MissingContext]"]) (simp add: loadRecommendedServers_def)
next
  case (Some c)
  show ?thesis
  proof (cases "recs = []")
    case True
    with Some show ?thesis
      by (intro exI [of _ "[InfoNoRecommendations]"]) (simp add: loadRecommendedServers_def)
  next
    case r: False
    show ?thesis
    proof (cases "filter validRecommendation recs = []")
      case True
      with Some r show ?thesis
        by (intro exI [of _ "[ErrorAgentAnalysis AllInvalid]"]) (simp add: loadRecommendedServers_def)
    next
      case v: False
      show ?thesis
      proof (cases "extensionPath c = []")
        case True
        with Some r v show ?thesis
          by (intro exI [of _ "[ErrorFileRead InvalidContext]"])
             (simp add: loadRecommendedServers_def ServerLoader_loadMasterServers_def)
      next
        case p: False
        show ?thesis
        proof (cases "catalog = []")
          case True
          with Some r v p m show ?thesis
            by (intro exI [of _ "[]"])
               (simp add: loadRecommendedServers_def loadMasterServers_doc [OF p m])
        next
          case k: False
          show ?thesis
          proof (cases "validateServerIds (map serverIdOf (filter validRecommendation recs)) catalog = []")
            case True
            with Some r v p m k show ?thesis
              by (intro exI [of _ "[WarningNoValidServers]"])
                 (simp add: loadRecommendedServers_def loadMasterServers_doc [OF p m])
          next
            case False
            with Some r v p m k cfg show ?thesis
              by (intro exI [of _ "[ErrorAgentAnalysis NoneConfigured]"])
                 (simp add: loadRecommendedServers_def loadMasterServers_doc [OF p m] Let_def)
          qed
        qed
      qed
    qed
  qed
qed

text \<open>The equations that evaluate the loader on the sample data.\<close>

lemmas sample_defs = sampleWorld_def sampleCatalog_def sampleContext_def plainServer_def
  tokenServer_def

lemmas loader_defs = loadRecommendedServers_def ServerLoader_loadMasterServers_def
  ServerLoader_loadWorkspaceEnvVars_def ServerLoader_loadWorkspaceMcpConfig_def
  ServerLoader_saveWorkspaceMcpConfig_def takeStep_def verifyWritten_def
  ServerLoader_mergeEnvironmentVariables_def getProperty_def setProperty_def
  prototypeFunctionNames_def trim_def isWhiteSpace_def Let_def

lemma save_returns:
  assumes "workspace w" and "fst (takeStep (mcp_steps w)) = WriteReturns found"
  shows "ServerLoader_saveWorkspaceMcpConfig config w =
     (w\<lparr>mcp_file := (case found of None \<Rightarrow> Doc config | Some f \<Rightarrow> f),
        mcp_steps := snd (takeStep (mcp_steps w)),
        mcp_writes := mcp_writes w @ [config]\<rparr>,
      SaveReturns (verifyWritten config (case found of None \<Rightarrow> Doc config | Some f \<Rightarrow> f)))"
  using assms
  by (cases "takeStep (mcp_steps w)") (simp add: ServerLoader_saveWorkspaceMcpConfig_def Let_def)

lemma save_throws:
  assumes "workspace w" and "stepThrows (fst (takeStep (mcp_steps w)))"
  shows "\<exists>e. ServerLoader_saveWorkspaceMcpConfig config w =
     (w\<lparr>mcp_file := (case fst (takeStep (mcp_steps w)) of
                        WriteThrows (Some f) \<Rightarrow> f | _ \<Rightarrow> mcp_file w),
        mcp_steps := snd (takeStep (mcp_steps w)),
        mcp_writes := (case fst (takeStep (mcp_steps w)) of
                         MkdirFails \<Rightarrow> mcp_writes w | _ \<Rightarrow> mcp_writes w @ [config]),
        shown := shown w @ [ErrorConfigWrite e]\<rparr>,
      SaveThrows e)"
  using assms
  by (cases "takeStep (mcp_steps w)")
     (auto simp: ServerLoader_saveWorkspaceMcpConfig_def stepThrows_def
           split: fs_step.splits option.splits)

lemma save_mcp_file:
  assumes "workspace w"
  shows "mcp_file (fst (ServerLoader_saveWorkspaceMcpConfig config w)) =
     (case fst (takeStep (mcp_steps w)) of
        MkdirFails \<Rightarrow> mcp_file w
      | WriteThrows left \<Rightarrow> (case left of None \<Rightarrow> mcp_file w | Some f \<Rightarrow> f)
      | WriteReturns found \<Rightarrow> (case found of None \<Rightarrow> Doc config | Some f \<Rightarrow> f))"
  using assms
  by (cases "takeStep (mcp_steps w)")
     (auto simp: ServerLoader_saveWorkspaceMcpConfig_def Let_def split: fs_step.splits)

text \<open>
  C1, as amended. Let the accepted ids be the \<open>serverId\<close>s of the recommendations that
  are objects with a string \<open>serverId\<close> that is not blank after trimming and a non-empty
  string \<open>reason\<close>, and that are keys of the catalog. For a catalog without the key
  \<open>__proto__\<close>: when the catalog loads and the write returns with the written document
  on disk, the keys of the configuration document after \<open>loadRecommendedServers\<close> are
  exactly the accepted ids, and that document is the only one handed to \<open>writeFile\<close>;
  when no id is accepted nothing is written and the document stays as it was.
\<close>

theorem accepted_servers_written:
  assumes "extensionPath c \<noteq> []" and "workspace w" and "master_file w = MasterDoc catalog"
    and "fst (takeStep (mcp_steps w)) = WriteReturns None"
    and "js ''__proto__'' \<notin> fst ` set catalog"
  shows "let accepted = {s. \<exists>t. Rec (Str s) (Str t) \<in> set recs \<and> trim s \<noteq> [] \<and> t \<noteq> []
                              \<and> s \<in> fst ` set catalog};
             w' = fst (loadRecommendedServers (Arr recs) (Some c) w)
         in if accepted = {}
            then mcp_file w' = mcp_file w \<and> mcp_writes w' = mcp_writes w
            else \<exists>newConfig. mcp_file w' = Doc newConfig
                   \<and> mcp_writes w' = mcp_writes w @ [newConfig]
                   \<and> fst ` set newConfig = accepted"
proof -
  define ids where "ids = validateServerIds (map serverIdOf (filter validRecommendation recs)) catalog"
  define accepted where "accepted = {s. \<exists>t. Rec (Str s) (Str t) \<in> set recs \<and> trim s \<noteq> [] \<and> t \<noteq> []
                              \<and> s \<in> fst ` set catalog}"
  define newConfig where "newConfig = configureServers ids catalog (ServerLoader_loadWorkspaceEnvVars w) []"
  have keys: "fst ` set newConfig = accepted"
    unfolding newConfig_def ids_def accepted_def by (rule accepted_ids [OF assms(5)])
  show ?thesis
  proof (cases "accepted = {}")
    case True
    with keys have "newConfig = []" by simp
    from load_nothing_configured [OF assms(3) this [unfolded newConfig_def ids_def], of "Some c"]
    obtain msgs where "loadRecommendedServers (Arr recs) (Some c) w = (w\<lparr>shown := shown w @ msgs\<rparr>, 0)"
      by blast
    with True show ?thesis
      unfolding Let_def accepted_def [symmetric] by simp
  next
    case False
    with keys have ne: "newConfig \<noteq> []" by auto
    have "loadRecommendedServers (Arr recs) (Some c) w =
        (case ServerLoader_saveWorkspaceMcpConfig newConfig w of
           (w2, SaveThrows e) \<Rightarrow>
             (fst (ServerLoader_saveWorkspaceMcpConfig (ServerLoader_loadWorkspaceMcpConfig w) w2), 0)
         | (w2, SaveReturns issue) \<Rightarrow>
             (w2\<lparr>shown := shown w2 @
                [InfoLoaded ids (filter (\<lambda>r. serverIdOf r \<in> set ids) (filter validRecommendation recs))]\<rparr>,
              length ids))"
      by (rule load_reaches_save [OF assms(1) assms(3) ids_def [symmetric] newConfig_def [symmetric] ne])
    then have "mcp_file (fst (loadRecommendedServers (Arr recs) (Some c) w)) = Doc newConfig
        \<and> mcp_writes (fst (loadRecommendedServers (Arr recs) (Some c) w)) = mcp_writes w @ [newConfig]"
      by (simp add: save_returns [OF assms(2) assms(4)])
    with False keys show ?thesis
      unfolding Let_def accepted_def [symmetric] by auto
  qed
qed

text \<open>The scenario of the specification: \<open>aws-docs\<close> is written, \<open>unknown-x\<close> is not.\<close>

theorem accepted_servers_written_witness:
  "mcp_file (fst (loadRecommendedServers
       (Arr [Rec (Str (js ''aws-docs'')) (Str (js ''r1'')), Rec (Str (js ''unknown-x'')) (Str (js ''r2''))])
       (Some sampleContext) sampleWorld))
     = Doc [(js ''aws-docs'', plainServer)]"
proof -
  let ?recs = "[Rec (Str (js ''aws-docs'')) (Str (js ''r1'')), Rec (Str (js ''unknown-x'')) (Str (js ''r2''))]"
  let ?accepted = "{s. \<exists>t. Rec (Str s) (Str t) \<in> set ?recs \<and> trim s \<noteq> [] \<and> t \<noteq> []
                        \<and> s \<in> fst ` set sampleCatalog}"
  have 1: "extensionPath sampleContext \<noteq> []" by (simp add: sampleContext_def)
  have 2: "workspace sampleWorld" by (simp add: sampleWorld_def)
  have 3: "master_file sampleWorld = MasterDoc sampleCatalog" by (simp add: sampleWorld_def)
  have 4: "fst (takeStep (mcp_steps sampleWorld)) = WriteReturns None"
    by (simp add: sampleWorld_def takeStep_def)
  have 5: "js ''__proto__'' \<notin> fst ` set sampleCatalog" by (simp add: sampleCatalog_def)
  have "js ''aws-docs'' \<in> ?accepted"
    by (simp add: sampleCatalog_def trim_def isWhiteSpace_def)
  then have ne: "?accepted \<noteq> {}" by blast
  from accepted_servers_written [OF 1 2 3 4 5, of ?recs]
  have "\<exists>newConfig.
      mcp_file (fst (loadRecommendedServers (Arr ?recs) (Some sampleContext) sampleWorld)) = Doc newConfig
    \<and> mcp_writes (fst (loadRecommendedServers (Arr ?recs) (Some sampleContext) sampleWorld))
        = mcp_writes sampleWorld @ [newConfig]
    \<and> fst ` set newConfig = ?accepted"
    unfolding Let_def by (simp only: ne if_False)
  then obtain newConfig where
    "mcp_file (fst (loadRecommendedServers (Arr ?recs) (Some sampleContext) sampleWorld)) = Doc newConfig"
    by blast
  moreover have
    "mcp_file (fst (loadRecommendedServers (Arr ?recs) (Some sampleContext) sampleWorld))
       = Doc [(js ''aws-docs'', plainServer)]"
    by (simp add: loader_defs sample_defs)
  ultimately show ?thesis by simp
qed

text \<open>C1 as stated fails: \<open>github\<close> is a non-empty string and a key of the catalog, but
  its recommendation has no \<open>reason\<close>, so it is filtered out and not written.\<close>

theorem missing_reason_counterexample:
  "mcp_file (fst (loadRecommendedServers
       (Arr [Rec (Str (js ''aws-docs'')) (Str (js ''r1'')), Rec (Str (js ''github'')) NotAString])
       (Some sampleContext) sampleWorld))
     = Doc [(js ''aws-docs'', plainServer)]
   \<and> spec_wellFormedIds
        [Rec (Str (js ''aws-docs'')) (Str (js ''r1'')), Rec (Str (js ''github'')) NotAString]
        sampleCatalog
     = {js ''aws-docs'', js ''github''}"
  by (simp add: loader_defs sample_defs spec_wellFormedIds_def)

text \<open>The condition on \<open>__proto__\<close> is needed. A catalog parsed from JSON can have
  that key, and validation accepts the id, but the assignment to the new configuration
  goes through the inherited setter and creates no key: nothing is written.\<close>

lemma proto_key_is_not_written:
  "loadRecommendedServers (Arr [Rec (Str (js ''__proto__'')) (Str (js ''r''))])
       (Some sampleContext)
       (sampleWorld\<lparr>master_file := MasterDoc [(js ''__proto__'', plainServer)]\<rparr>)
     = (sampleWorld\<lparr>master_file := MasterDoc [(js ''__proto__'', plainServer)],
          shown := [ErrorAgentAnalysis NoneConfigured]\<rparr>, 0)"
  by (simp add: loader_defs sample_defs)



subsection \<open>The writer and the rollback\<close>

text \<open>
  C9. Once \<open>writeFile\<close> has returned, \<open>ServerLoader.saveWorkspaceMcpConfig\<close> returns
  normally whatever the read-back finds on disk: it shows no notification, and the
  verification error (unreadable or unparseable content, invalid structure, a different
  number of entries) only travels with the result as the diagnostic that was printed.
\<close>

theorem verification_mismatch_not_escalated:
  assumes "workspace w" and "fst (takeStep (mcp_steps w)) = WriteReturns found"
  shows "(\<exists>w'. ServerLoader_saveWorkspaceMcpConfig config w
                 = (w', SaveReturns (verifyWritten config (mcp_file w')))
           \<and> shown w' = shown w
           \<and> mcp_writes w' = mcp_writes w @ [config]
           \<and> mcp_file w' = (case found of None \<Rightarrow> Doc config | Some f \<Rightarrow> f))
    \<and> verifyWritten config Absent = Some ReadBackFailed
    \<and> verifyWritten config Unparseable = Some ReadBackUnparseable
    \<and> verifyWritten config Malformed = Some ReadBackInvalidStructure
    \<and> verifyWritten config (Doc written) =
           (if length written \<noteq> length config
            then Some (CountMismatch (length config) (length written)) else None)"
  by (simp add: save_returns [OF assms] verifyWritten_def)

text \<open>A read-back that finds an empty document where two servers were written.\<close>

theorem verification_mismatch_not_escalated_witness:
  "ServerLoader_saveWorkspaceMcpConfig sampleCatalog
       (sampleWorld\<lparr>mcp_steps := [WriteReturns (Some (Doc []))]\<rparr>)
     = (sampleWorld\<lparr>mcp_file := Doc [], mcp_writes := [sampleCatalog]\<rparr>,
        SaveReturns (Some (CountMismatch 2 0)))"
proof -
  let ?w = "sampleWorld\<lparr>mcp_steps := [WriteReturns (Some (Doc []))]\<rparr>"
  have 1: "workspace ?w" by (simp add: sampleWorld_def)
  have 2: "fst (takeStep (mcp_steps ?w)) = WriteReturns (Some (Doc []))"
    by (simp add: takeStep_def)
  from verification_mismatch_not_escalated [OF 1 2, of sampleCatalog "[]"]
  obtain w' where "ServerLoader_saveWorkspaceMcpConfig sampleCatalog ?w
      = (w', SaveReturns (verifyWritten sampleCatalog (mcp_file w')))"
    and "mcp_file w' = Doc []"
    and "verifyWritten sampleCatalog (Doc []) = Some (CountMismatch (length sampleCatalog) 0)"
    unfolding sampleCatalog_def by auto
  then have "snd (ServerLoader_saveWorkspaceMcpConfig sampleCatalog ?w)
      = SaveReturns (Some (CountMismatch 2 0))"
    by (simp add: sampleCatalog_def)
  moreover have "fst (ServerLoader_saveWorkspaceMcpConfig sampleCatalog ?w)
      = sampleWorld\<lparr>mcp_file := Doc [], mcp_writes := [sampleCatalog]\<rparr>"
    by (simp add: ServerLoader_saveWorkspaceMcpConfig_def takeStep_def sampleWorld_def Let_def)
  ultimately show ?thesis by (simp add: prod_eq_iff)
qed

text \<open>
  C2, as amended. When the load reaches the write (the built configuration is not empty)
  and the save of the new configuration throws, \<open>loadRecommendedServers\<close> returns 0 and
  saves the snapshot it read before the write. If that second save returns with the
  written document on disk, the document is the snapshot, which is the prior document
  when that was a well-formed configuration. If the second save throws too, the document
  is the prior one provided neither failed save touched the file.
\<close>

theorem rollback_after_failed_write:
  assumes "extensionPath c \<noteq> []" and "master_file w = MasterDoc catalog" and "workspace w"
    and "configureServers
           (validateServerIds (map serverIdOf (filter validRecommendation recs)) catalog)
           catalog (ServerLoader_loadWorkspaceEnvVars w) [] \<noteq> []"
    and "stepThrows (fst (takeStep (mcp_steps w)))"
  shows "let first = fst (takeStep (mcp_steps w));
             second = fst (takeStep (snd (takeStep (mcp_steps w))));
             w' = fst (loadRecommendedServers (Arr recs) (Some c) w)
         in snd (loadRecommendedServers (Arr recs) (Some c) w) = 0
          \<and> (second = WriteReturns None \<longrightarrow>
               mcp_file w' = Doc (ServerLoader_loadWorkspaceMcpConfig w))
          \<and> (second = WriteReturns None \<and> mcp_file w = Doc original \<longrightarrow>
               mcp_file w' = Doc original)
          \<and> (leavesFileUntouched first \<and> leavesFileUntouched second \<longrightarrow>
               mcp_file w' = mcp_file w)"
proof -
  define ids where "ids = validateServerIds (map serverIdOf (filter validRecommendation recs)) catalog"
  define newConfig where "newConfig = configureServers ids catalog (ServerLoader_loadWorkspaceEnvVars w) []"
  define snapshot where "snapshot = ServerLoader_loadWorkspaceMcpConfig w"
  from assms(4) have ne: "newConfig \<noteq> []" by (simp add: newConfig_def ids_def)
  from save_throws [OF assms(3) assms(5), of newConfig]
  obtain e w2 where s1: "ServerLoader_saveWorkspaceMcpConfig newConfig w = (w2, SaveThrows e)"
    and w2: "w2 = w\<lparr>mcp_file := (case fst (takeStep (mcp_steps w)) of
                        WriteThrows (Some f) \<Rightarrow> f | _ \<Rightarrow> mcp_file w),
        mcp_steps := snd (takeStep (mcp_steps w)),
        mcp_writes := (case fst (takeStep (mcp_steps w)) of
                         MkdirFails \<Rightarrow> mcp_writes w | _ \<Rightarrow> mcp_writes w @ [newConfig]),
        shown := shown w @ [ErrorConfigWrite e]\<rparr>"
    by blast
  have load: "loadRecommendedServers (Arr recs) (Some c) w
      = (fst (ServerLoader_saveWorkspaceMcpConfig snapshot w2), 0)"
    using load_reaches_save [OF assms(1) assms(2) ids_def [symmetric] newConfig_def [symmetric] ne]
    by (simp add: s1 snapshot_def)
  have ws: "workspace w2" using assms(3) by (simp add: w2)
  have steps: "mcp_steps w2 = snd (takeStep (mcp_steps w))" by (simp add: w2)
  have file2: "leavesFileUntouched (fst (takeStep (mcp_steps w))) \<Longrightarrow> mcp_file w2 = mcp_file w"
    by (auto simp: w2 leavesFileUntouched_def split: fs_step.splits option.splits)
  have after: "mcp_file (fst (ServerLoader_saveWorkspaceMcpConfig snapshot w2)) =
     (case fst (takeStep (snd (takeStep (mcp_steps w)))) of
        MkdirFails \<Rightarrow> mcp_file w2
      | WriteThrows left \<Rightarrow> (case left of None \<Rightarrow> mcp_file w2 | Some f \<Rightarrow> f)
      | WriteReturns found \<Rightarrow> (case found of None \<Rightarrow> Doc snapshot | Some f \<Rightarrow> f))"
    using save_mcp_file [OF ws, of snapshot] by (simp add: steps)
  have snap: "mcp_file w = Doc original \<Longrightarrow> snapshot = original"
    using assms(3) by (simp add: snapshot_def ServerLoader_loadWorkspaceMcpConfig_def)
  let ?second = "fst (takeStep (snd (takeStep (mcp_steps w))))"
  let ?w' = "fst (ServerLoader_saveWorkspaceMcpConfig snapshot w2)"
  have a: "?second = WriteReturns None \<Longrightarrow> mcp_file ?w' = Doc snapshot"
    by (simp add: after)
  have b: "?second = WriteReturns None \<Longrightarrow> mcp_file w = Doc original \<Longrightarrow> mcp_file ?w' = Doc original"
    using a snap by simp
  have "leavesFileUntouched ?second \<Longrightarrow> mcp_file ?w' = mcp_file w2"
    by (auto simp: after leavesFileUntouched_def split: fs_step.splits option.splits)
  with file2 have c: "leavesFileUntouched (fst (takeStep (mcp_steps w))) \<Longrightarrow>
      leavesFileUntouched ?second \<Longrightarrow> mcp_file ?w' = mcp_file w"
    by simp
  show ?thesis
    unfolding Let_def load fst_conv snd_conv snapshot_def [symmetric]
    using a b c by blast
qed

text \<open>A first write that leaves the file truncated, and a rollback that succeeds.\<close>

theorem rollback_after_failed_write_witness:
  "mcp_file (fst (loadRecommendedServers (Arr [Rec (Str (js ''github'')) (Str (js ''r''))])
       (Some sampleContext)
       (sampleWorld\<lparr>mcp_steps := [WriteThrows (Some Unparseable), WriteReturns None]\<rparr>)))
     = Doc [(js ''legacy'', plainServer)]"
proof -
  let ?w = "sampleWorld\<lparr>mcp_steps := [WriteThrows (Some Unparseable), WriteReturns None]\<rparr>"
  let ?recs = "[Rec (Str (js ''github'')) (Str (js ''r''))]"
  have 1: "extensionPath sampleContext \<noteq> []" by (simp add: sampleContext_def)
  have 2: "master_file ?w = MasterDoc sampleCatalog" by (simp add: sampleWorld_def)
  have 3: "workspace ?w" by (simp add: sampleWorld_def)
  have 4: "configureServers
           (validateServerIds (map serverIdOf (filter validRecommendation ?recs)) sampleCatalog)
           sampleCatalog (ServerLoader_loadWorkspaceEnvVars ?w) [] \<noteq> []"
    by (simp add: sampleCatalog_def trim_def isWhiteSpace_def getProperty_def setProperty_def
        prototypeFunctionNames_def)
  have 5: "stepThrows (fst (takeStep (mcp_steps ?w)))"
    by (simp add: takeStep_def stepThrows_def)
  have 6: "fst (takeStep (snd (takeStep (mcp_steps ?w)))) = WriteReturns None"
    by (simp add: takeStep_def)
  have 7: "mcp_file ?w = Doc [(js ''legacy'', plainServer)]" by (simp add: sampleWorld_def)
  from rollback_after_failed_write [OF 1 2 3 4 5, of "[(js ''legacy'', plainServer)]"]
  show ?thesis
    unfolding Let_def using 6 7 by blast
qed

text \<open>C2 as stated fails: the first write throws after truncating the file and the
  rollback write throws as well, so the prior document is lost.\<close>

theorem failed_rollback_counterexample:
  "mcp_file (sampleWorld\<lparr>mcp_steps := [WriteThrows (Some Unparseable), WriteThrows None]\<rparr>)
     = Doc [(js ''legacy'', plainServer)]
   \<and> loadRecommendedServers (Arr [Rec (Str (js ''github'')) (Str (js ''r''))])
       (Some sampleContext)
       (sampleWorld\<lparr>mcp_steps := [WriteThrows (Some Unparseable), WriteThrows None]\<rparr>)
     = (sampleWorld\<lparr>mcp_file := Unparseable,
          mcp_writes := [[(js ''github'', tokenServer\<lparr>env := Some [(js ''GITHUB_TOKEN'', js ''ghp_1'')]\<rparr>)],
                         [(js ''legacy'', plainServer)]],
          shown := [ErrorConfigWrite WriteFailed, ErrorConfigWrite WriteFailed]\<rparr>, 0)"
  by (simp add: loader_defs sample_defs resolveValue_def)

subsection \<open>Group load and toggle\<close>

lemma ext_save_returns:
  assumes "workspace w" and "fst (takeStep (mcp_steps w)) = WriteReturns None"
  shows "saveWorkspaceMcpConfig config w =
     (w\<lparr>mcp_file := Doc config, mcp_steps := snd (takeStep (mcp_steps w)),
        mcp_writes := mcp_writes w @ [config]\<rparr>, Inr ())"
  using assms by (cases "takeStep (mcp_steps w)") (simp add: saveWorkspaceMcpConfig_def)

lemma ext_save_Inr:
  assumes "saveWorkspaceMcpConfig config w = (w', Inr u)"
  shows "mcp_writes w' = mcp_writes w @ [config]
       \<and> (fst (takeStep (mcp_steps w)) = WriteReturns None \<longrightarrow> mcp_file w' = Doc config)"
  using assms
  by (cases "takeStep (mcp_steps w)")
     (auto simp: saveWorkspaceMcpConfig_def split: if_splits fs_step.splits)

lemma groupConfig_keys:
  "groupConfig ids (Some catalog) ev acc = Inr newConfig \<Longrightarrow>
     fst ` set newConfig \<subseteq> fst ` set acc \<union> fst ` set catalog"
proof (induction ids arbitrary: acc)
  case Nil
  then show ?case by auto
next
  case (Cons s ids)
  show ?case
  proof (cases "getProperty catalog s")
    case (Own srv)
    then have "map_of catalog s = Some srv" by (simp add: getProperty_Own_iff)
    then have in_cat: "s \<in> fst ` set catalog"
      by (metis map_of_eq_None_iff option.distinct(1))
    from Cons.prems Own obtain vs srv' where
      "ev = Inr vs" "mergeWith srv vs = Inr srv'"
      "groupConfig ids (Some catalog) ev (setProperty s srv' acc) = Inr newConfig"
      by (auto split: sum.splits)
    from Cons.IH [OF this(3)] in_cat keys_setProperty(1) [of s srv' acc] show ?thesis
      by auto
  next
    case InheritedFunction
    with Cons.prems have "groupConfig ids (Some catalog) ev acc = Inr newConfig"
      by (auto split: sum.splits)
    from Cons.IH [OF this] show ?thesis .
  next
    case InheritedPrototype
    with Cons.prems have "groupConfig ids (Some catalog) ev acc = Inr newConfig"
      by (auto split: sum.splits)
    from Cons.IH [OF this] show ?thesis .
  next
    case Undefined
    with Cons.prems have "groupConfig ids (Some catalog) ev acc = Inr newConfig"
      by simp
    from Cons.IH [OF this] show ?thesis .
  qed
qed

text \<open>When the build returns, the group load leaves it on disk whatever was there
  before; when the build throws, nothing is written.\<close>

lemma group_load_replaces:
  assumes "master_file w = MasterDoc catalog" and "workspace w"
    and "env_file w = EnvDoc variables"
    and "fst (takeStep (mcp_steps w)) = WriteReturns None"
    and "groupConfig (groupServers g) (Some catalog) (Inr (Some variables)) [] = Inr newConfig"
  shows "loadServerGroup g cx (w\<lparr>mcp_file := prior\<rparr>)
      = (w\<lparr>mcp_file := Doc newConfig, mcp_steps := snd (takeStep (mcp_steps w)),
           mcp_writes := mcp_writes w @ [newConfig]\<rparr>, Inr ())"
proof -
  have "loadServerGroup g cx (w\<lparr>mcp_file := prior\<rparr>)
      = saveWorkspaceMcpConfig newConfig (w\<lparr>mcp_file := prior\<rparr>)"
    using assms(1,2,3,5)
    by (simp add: loadServerGroup_def loadMasterServers_def loadWorkspaceEnvVars_def)
  then show ?thesis using assms(2,4) by (simp add: ext_save_returns)
qed

lemma group_load_throws:
  assumes "master_file w = MasterDoc catalog"
    and "groupConfig (groupServers g) (Some catalog) (loadWorkspaceEnvVars w) [] = Inl e"
  shows "loadServerGroup g cx w = (w, Inl e)"
  using assms by (simp add: loadServerGroup_def loadMasterServers_def)

text \<open>The equations that evaluate the functions of \<open>extension.ts\<close> on the sample data.\<close>

lemmas extension_defs = loadServerGroup_def loadMasterServers_def loadWorkspaceEnvVars_def
  loadWorkspaceMcpConfig_def saveWorkspaceMcpConfig_def toggleServer_def mergeWith_def
  mergeEnvironmentVariables_def getProperty_def hasProperty_def setProperty_def
  prototypeFunctionNames_def cleanDefault_def takeStep_def trim_def isWhiteSpace_def

text \<open>The scenario of the specification: the group is loaded, the token is changed, the
  group is loaded again, and the document is the build with the new token.\<close>

lemma group_load_twice:
  "fst (loadServerGroup sampleGroup sampleContext sampleWorld)
     = sampleWorld\<lparr>mcp_file := Doc [(js ''aws-docs'', plainServer),
            (js ''github'', tokenServer\<lparr>env := Some [(js ''GITHUB_TOKEN'', js ''ghp_1'')]\<rparr>)],
          mcp_writes := [[(js ''aws-docs'', plainServer),
            (js ''github'', tokenServer\<lparr>env := Some [(js ''GITHUB_TOKEN'', js ''ghp_1'')]\<rparr>)]]\<rparr>"
  "mcp_file (fst (loadServerGroup sampleGroup sampleContext
      (sampleWorld\<lparr>mcp_file := Doc [(js ''aws-docs'', plainServer),
            (js ''github'', tokenServer\<lparr>env := Some [(js ''GITHUB_TOKEN'', js ''ghp_1'')]\<rparr>)],
          mcp_writes := [[(js ''aws-docs'', plainServer),
            (js ''github'', tokenServer\<lparr>env := Some [(js ''GITHUB_TOKEN'', js ''ghp_1'')]\<rparr>)]],
          env_file := EnvDoc [(js ''GITHUB_TOKEN'', js ''ghp_2'')]\<rparr>)))
     = Doc [(js ''aws-docs'', plainServer),
            (js ''github'', tokenServer\<lparr>env := Some [(js ''GITHUB_TOKEN'', js ''ghp_2'')]\<rparr>)]"
  by (simp_all add: extension_defs sample_defs sampleGroup_def)

text \<open>
  C7: the program departs from the claim. The only server of the group declares the
  environment variable \<open>toString\<close> and the workspace gives it no value, so the merge
  of \<open>extension.ts\<close> reads the inherited method and throws: \<open>loadServerGroup\<close> ends
  with a \<open>TypeError\<close> before anything is written, and the document that was there
  before, whichever it was, is still there.
\<close>

theorem group_load_throws_on_inherited_name:
  "loadServerGroup formatGroup sampleContext formatWorld = (formatWorld, Inl TypeError)
   \<and> mcp_file formatWorld = Doc [(js ''legacy'', plainServer)]
   \<and> loadServerGroup formatGroup sampleContext (formatWorld\<lparr>mcp_file := Absent\<rparr>)
       = (formatWorld\<lparr>mcp_file := Absent\<rparr>, Inl TypeError)
   \<and> ServerLoader_mergeEnvironmentVariables formatServer []
       = formatServer\<lparr>env := Some [(js ''toString'', js ''json'')]\<rparr>"
  by (simp add: extension_defs sample_defs formatWorld_def formatGroup_def formatServer_def
      ServerLoader_mergeEnvironmentVariables_def resolveValue_def stripDefaultLabel_def
      startsWith_def stripTrailingCR_def)

lemma keys_delete: "fst ` set (AList.delete k al) = fst ` set al - {k}"
  by (induction al) auto

lemma flipped_twice:
  assumes "x \<in> B \<longleftrightarrow> x \<notin> A" and "B - {x} = A - {x}"
    and "x \<in> C \<longleftrightarrow> x \<notin> B" and "C - {x} = B - {x}"
  shows "C = A"
proof (rule set_eqI)
  fix y
  from assms(2) have "y \<in> B - {x} \<longleftrightarrow> y \<in> A - {x}" by simp
  then have 1: "y \<noteq> x \<Longrightarrow> y \<in> B \<longleftrightarrow> y \<in> A" by simp
  from assms(4) have "y \<in> C - {x} \<longleftrightarrow> y \<in> B - {x}" by simp
  then have 2: "y \<noteq> x \<Longrightarrow> y \<in> C \<longleftrightarrow> y \<in> B" by simp
  show "y \<in> C \<longleftrightarrow> y \<in> A"
  proof (cases "y = x")
    case True
    with assms(1,3) show ?thesis by simp
  next
    case False
    with 1 2 show ?thesis by simp
  qed
qed

lemma hasProperty_iff:
  "hasProperty obj key \<longleftrightarrow> key \<in> fst ` set obj \<or> isPrototypeMember key"
  by (simp add: hasProperty_def getProperty_defined)

text \<open>A toggle of an id that is not the name of a member of \<open>Object.prototype\<close> flips
  that id and no other key; two such toggles restore the keys.\<close>

lemma toggle_once:
  assumes "workspace w" and "loadWorkspaceMcpConfig w = Some current"
    and "env_file w = EnvDoc variables"
    and "mergeEnvironmentVariables server variables = Inr merged"
    and "fst (takeStep (mcp_steps w)) = WriteReturns None"
    and "\<not> isPrototypeMember serverId"
  shows "\<exists>next. toggleServer serverId server w =
       (w\<lparr>mcp_file := Doc next, mcp_steps := snd (takeStep (mcp_steps w)),
          mcp_writes := mcp_writes w @ [next]\<rparr>, Inr ())
     \<and> (serverId \<in> fst ` set next \<longleftrightarrow> serverId \<notin> fst ` set current)
     \<and> fst ` set next - {serverId} = fst ` set current - {serverId}"
proof (cases "serverId \<in> fst ` set current")
  case False
  let ?next = "setProperty serverId merged current"
  from assms(6) have "serverId \<noteq> js ''__proto__''" by (auto simp: isPrototypeMember_def)
  then have "fst ` set ?next = insert serverId (fst ` set current)"
    by (rule keys_setProperty(2))
  with False have "(serverId \<in> fst ` set ?next \<longleftrightarrow> serverId \<notin> fst ` set current)
     \<and> fst ` set ?next - {serverId} = fst ` set current - {serverId}"
    by auto
  moreover have "toggleServer serverId server w =
       (w\<lparr>mcp_file := Doc ?next, mcp_steps := snd (takeStep (mcp_steps w)),
          mcp_writes := mcp_writes w @ [?next]\<rparr>, Inr ())"
    using False assms(1,2,3,4,6)
    by (simp add: toggleServer_def hasProperty_iff loadWorkspaceEnvVars_def mergeWith_def
        ext_save_returns [OF assms(1) assms(5)])
  ultimately show ?thesis by blast
next
  case True
  let ?next = "AList.delete serverId current"
  from True have "(serverId \<in> fst ` set ?next \<longleftrightarrow> serverId \<notin> fst ` set current)
     \<and> fst ` set ?next - {serverId} = fst ` set current - {serverId}"
    by (auto simp: keys_delete)
  moreover have "toggleServer serverId server w =
       (w\<lparr>mcp_file := Doc ?next, mcp_steps := snd (takeStep (mcp_steps w)),
          mcp_writes := mcp_writes w @ [?next]\<rparr>, Inr ())"
    using True assms(1,2)
    by (simp add: toggleServer_def hasProperty_iff ext_save_returns [OF assms(1) assms(5)])
  ultimately show ?thesis by blast
qed

lemma toggle_twice_restores_keys:
  assumes "workspace w" and "loadWorkspaceMcpConfig w = Some current"
    and "env_file w = EnvDoc variables"
    and "mergeEnvironmentVariables server variables = Inr merged"
    and "fst (takeStep (mcp_steps w)) = WriteReturns None"
    and "fst (takeStep (snd (takeStep (mcp_steps w)))) = WriteReturns None"
    and "\<not> isPrototypeMember serverId"
  shows "\<exists>once twice.
      mcp_file (fst (toggleServer serverId server w)) = Doc once
    \<and> mcp_file (fst (toggleServer serverId server (fst (toggleServer serverId server w)))) = Doc twice
    \<and> (serverId \<in> fst ` set once \<longleftrightarrow> serverId \<notin> fst ` set current)
    \<and> fst ` set once - {serverId} = fst ` set current - {serverId}
    \<and> (serverId \<in> fst ` set twice \<longleftrightarrow> serverId \<notin> fst ` set once)
    \<and> fst ` set twice - {serverId} = fst ` set once - {serverId}
    \<and> fst ` set twice = fst ` set current"
proof -
  from toggle_once [OF assms(1-5) assms(7)]
  obtain once where
    t1: "toggleServer serverId server w =
       (w\<lparr>mcp_file := Doc once, mcp_steps := snd (takeStep (mcp_steps w)),
          mcp_writes := mcp_writes w @ [once]\<rparr>, Inr ())"
    and k1: "serverId \<in> fst ` set once \<longleftrightarrow> serverId \<notin> fst ` set current"
      "fst ` set once - {serverId} = fst ` set current - {serverId}"
    by blast
  let ?w1 = "w\<lparr>mcp_file := Doc once, mcp_steps := snd (takeStep (mcp_steps w)),
          mcp_writes := mcp_writes w @ [once]\<rparr>"
  have a: "workspace ?w1" using assms(1) by simp
  have b: "loadWorkspaceMcpConfig ?w1 = Some once"
    using assms(1) by (simp add: loadWorkspaceMcpConfig_def)
  have c: "env_file ?w1 = EnvDoc variables" using assms(3) by simp
  have d: "fst (takeStep (mcp_steps ?w1)) = WriteReturns None" using assms(6) by simp
  from toggle_once [OF a b c assms(4) d assms(7)]
  obtain twice where
    t2': "toggleServer serverId server ?w1 =
       (?w1\<lparr>mcp_file := Doc twice, mcp_steps := snd (takeStep (mcp_steps ?w1)),
          mcp_writes := mcp_writes ?w1 @ [twice]\<rparr>, Inr ())"
    and k2: "serverId \<in> fst ` set twice \<longleftrightarrow> serverId \<notin> fst ` set once"
      "fst ` set twice - {serverId} = fst ` set once - {serverId}"
    by blast
  have t2: "mcp_file (fst (toggleServer serverId server ?w1)) = Doc twice"
    unfolding t2' by simp
  have same: "fst ` set twice = fst ` set current"
    using k1(1) k1(2) k2(1) k2(2) by (rule flipped_twice)
  have first: "mcp_file (fst (toggleServer serverId server w)) = Doc once"
    unfolding t1 by simp
  have second: "mcp_file (fst (toggleServer serverId server (fst (toggleServer serverId server w))))
      = Doc twice"
    unfolding t1 fst_conv by (rule t2)
  show ?thesis
    using first second k1 k2 same by blast
qed

text \<open>For the name of a member of \<open>Object.prototype\<close> the \<open>in\<close> test always holds: the
  toggle takes the remove branch and writes the configuration back without that key.\<close>

lemma toggle_inherited_name:
  assumes "workspace w" and "loadWorkspaceMcpConfig w = Some current"
    and "isPrototypeMember serverId"
  shows "toggleServer serverId server w
      = saveWorkspaceMcpConfig (AList.delete serverId current) w"
  using assms by (simp add: toggleServer_def hasProperty_iff)

text \<open>
  C10: the program departs from the claim. \<open>toString\<close> is not a key of the
  configuration, yet \<open>toString in mcpServers\<close> holds, so \<open>toggleServer\<close> takes the
  remove branch: it writes the document back as it was and the server is not added, after
  one toggle as after two.
\<close>

theorem toggle_keeps_inherited_name_off:
  "js ''toString'' \<notin> fst ` set [(js ''legacy'', plainServer)]
   \<and> mcp_file sampleWorld = Doc [(js ''legacy'', plainServer)]
   \<and> toggleServer (js ''toString'') plainServer sampleWorld
       = (sampleWorld\<lparr>mcp_writes := [[(js ''legacy'', plainServer)]]\<rparr>, Inr ())
   \<and> mcp_file (fst (toggleServer (js ''toString'') plainServer
        (sampleWorld\<lparr>mcp_writes := [[(js ''legacy'', plainServer)]]\<rparr>)))
       = Doc [(js ''legacy'', plainServer)]"
  by (simp add: extension_defs sample_defs)

subsection \<open>Keys of the persisted configuration\<close>

lemma loader_save_returned:
  assumes "ServerLoader_saveWorkspaceMcpConfig config w = (w2, SaveReturns issue)"
  shows "mcp_writes w2 = mcp_writes w @ [config]
       \<and> (fst (takeStep (mcp_steps w)) = WriteReturns None \<longrightarrow> mcp_file w2 = Doc config)"
  using assms
  by (cases "takeStep (mcp_steps w)")
     (auto simp: ServerLoader_saveWorkspaceMcpConfig_def Let_def split: if_splits fs_step.splits)

lemma load_positive:
  assumes m: "master_file w = MasterDoc catalog"
    and l: "loadRecommendedServers rq c w = (w', n)" and n: "0 < n"
  shows "\<exists>newConfig. mcp_writes w' = mcp_writes w @ [newConfig]
           \<and> fst ` set newConfig \<subseteq> fst ` set catalog
           \<and> (fst (takeStep (mcp_steps w)) = WriteReturns None \<longrightarrow> mcp_file w' = Doc newConfig)"
proof (cases c)
  case None
  with l n show ?thesis by (simp add: loadRecommendedServers_def)
next
  case (Some cx)
  show ?thesis
  proof (cases rq)
    case Nullish
    with Some l n show ?thesis by (simp add: loadRecommendedServers_def)
  next
    case NotAnArray
    with Some l n show ?thesis by (simp add: loadRecommendedServers_def)
  next
    case (Arr recs)
    define ids where "ids = validateServerIds (map serverIdOf (filter validRecommendation recs)) catalog"
    define newConfig where
      "newConfig = configureServers ids catalog (ServerLoader_loadWorkspaceEnvVars w) []"
    show ?thesis
    proof (cases "newConfig = []")
      case True
      from load_nothing_configured [OF m True [unfolded newConfig_def ids_def], of c] l n Arr
      show ?thesis by auto
    next
      case ne: False
      then have "ids \<noteq> []" by (auto simp: newConfig_def)
      then have v: "filter validRecommendation recs \<noteq> []" and r: "recs \<noteq> []"
        by (auto simp: ids_def)
      show ?thesis
      proof (cases "extensionPath cx = []")
        case True
        with Some Arr l n r v show ?thesis
          by (simp add: loadRecommendedServers_def ServerLoader_loadMasterServers_def)
      next
        case False
        note run = load_reaches_save [OF False m ids_def [symmetric] newConfig_def [symmetric] ne]
        have keys: "fst ` set newConfig \<subseteq> fst ` set catalog"
          unfolding newConfig_def
          using configured_keys_subset [of ids catalog "ServerLoader_loadWorkspaceEnvVars w" "[]"]
          by simp
        obtain w2 res where s: "ServerLoader_saveWorkspaceMcpConfig newConfig w = (w2, res)"
          by (cases "ServerLoader_saveWorkspaceMcpConfig newConfig w")
        show ?thesis
        proof (cases res)
          case (SaveThrows e)
          with run s l n Some Arr show ?thesis by simp
        next
          case (SaveReturns issue)
          with run s l Some Arr have "w' = w2\<lparr>shown := shown w2 @
             [InfoLoaded ids (filter (\<lambda>r. serverIdOf r \<in> set ids) (filter validRecommendation recs))]\<rparr>"
            by simp
          moreover from loader_save_returned [OF s [unfolded SaveReturns]]
          have "mcp_writes w2 = mcp_writes w @ [newConfig]
            \<and> (fst (takeStep (mcp_steps w)) = WriteReturns None \<longrightarrow> mcp_file w2 = Doc newConfig)" .
          ultimately show ?thesis using keys by (intro exI [of _ newConfig]) simp
        qed
      qed
    qed
  qed
qed

lemma group_load_returned:
  assumes m: "master_file w = MasterDoc catalog"
    and l: "loadServerGroup g cx w = (w', Inr u)"
  shows "\<exists>newConfig. mcp_writes w' = mcp_writes w @ [newConfig]
           \<and> fst ` set newConfig \<subseteq> fst ` set catalog
           \<and> (fst (takeStep (mcp_steps w)) = WriteReturns None \<longrightarrow> mcp_file w' = Doc newConfig)"
proof (cases "groupConfig (groupServers g) (Some catalog) (loadWorkspaceEnvVars w) []")
  case (Inl e)
  with m l show ?thesis by (simp add: loadServerGroup_def loadMasterServers_def)
next
  case (Inr newConfig)
  with m l have "saveWorkspaceMcpConfig newConfig w = (w', Inr u)"
    by (simp add: loadServerGroup_def loadMasterServers_def)
  from ext_save_Inr [OF this] groupConfig_keys [OF Inr] show ?thesis
    by (intro exI [of _ newConfig]) simp
qed

text \<open>
  C4, as amended. Whenever \<open>loadServerGroup\<close> returns normally, and whenever
  \<open>loadRecommendedServers\<close> returns a positive count, exactly one document was handed to
  \<open>writeFile\<close>, every key of it is a key of the catalog read by that call, and it is the
  document on disk when the write was faithful. (The rollback write of a failed
  recommendation load is not covered: it writes the snapshot back, whatever its keys.)
\<close>

theorem built_keys_in_catalog:
  assumes "master_file w = MasterDoc catalog"
  shows "(\<forall>w'. loadServerGroup g cx w = (w', Inr ()) \<longrightarrow>
            (\<exists>newConfig. mcp_writes w' = mcp_writes w @ [newConfig]
               \<and> fst ` set newConfig \<subseteq> fst ` set catalog
               \<and> (fst (takeStep (mcp_steps w)) = WriteReturns None \<longrightarrow> mcp_file w' = Doc newConfig)))
       \<and> (\<forall>w' n. loadRecommendedServers rq c w = (w', n) \<and> 0 < n \<longrightarrow>
            (\<exists>newConfig. mcp_writes w' = mcp_writes w @ [newConfig]
               \<and> fst ` set newConfig \<subseteq> fst ` set catalog
               \<and> (fst (takeStep (mcp_steps w)) = WriteReturns None \<longrightarrow> mcp_file w' = Doc newConfig)))"
  using group_load_returned [OF assms] load_positive [OF assms] by blast

text \<open>A group load and a recommendation load in the sample workspace.\<close>

theorem built_keys_in_catalog_witness:
  "(\<exists>newConfig. mcp_file (fst (loadServerGroup sampleGroup sampleContext sampleWorld)) = Doc newConfig
       \<and> fst ` set newConfig \<subseteq> fst ` set sampleCatalog)
   \<and> (\<exists>newConfig. mcp_file (fst (loadRecommendedServers
           (Arr [Rec (Str (js ''github'')) (Str (js ''r''))]) (Some sampleContext) sampleWorld))
         = Doc newConfig
       \<and> fst ` set newConfig \<subseteq> fst ` set sampleCatalog)"
proof -
  let ?rq = "Arr [Rec (Str (js ''github'')) (Str (js ''r''))]"
  have m: "master_file sampleWorld = MasterDoc sampleCatalog" by (simp add: sampleWorld_def)
  have s: "fst (takeStep (mcp_steps sampleWorld)) = WriteReturns None"
    by (simp add: sampleWorld_def takeStep_def)
  have g: "snd (loadServerGroup sampleGroup sampleContext sampleWorld) = Inr ()"
    by (simp add: extension_defs sample_defs sampleGroup_def)
  have r: "snd (loadRecommendedServers ?rq (Some sampleContext) sampleWorld) = 1"
    by (simp add: loader_defs sample_defs resolveValue_def)
  note t = built_keys_in_catalog [OF m, of sampleGroup sampleContext ?rq "Some sampleContext"]
  from t have "\<exists>newConfig.
      mcp_writes (fst (loadServerGroup sampleGroup sampleContext sampleWorld))
        = mcp_writes sampleWorld @ [newConfig]
    \<and> fst ` set newConfig \<subseteq> fst ` set sampleCatalog
    \<and> (fst (takeStep (mcp_steps sampleWorld)) = WriteReturns None \<longrightarrow>
         mcp_file (fst (loadServerGroup sampleGroup sampleContext sampleWorld)) = Doc newConfig)"
    using g by (metis prod.collapse)
  moreover from t have "\<exists>newConfig.
      mcp_writes (fst (loadRecommendedServers ?rq (Some sampleContext) sampleWorld))
        = mcp_writes sampleWorld @ [newConfig]
    \<and> fst ` set newConfig \<subseteq> fst ` set sampleCatalog
    \<and> (fst (takeStep (mcp_steps sampleWorld)) = WriteReturns None \<longrightarrow>
         mcp_file (fst (loadRecommendedServers ?rq (Some sampleContext) sampleWorld)) = Doc newConfig)"
    using r by (metis prod.collapse zero_less_one)
  ultimately show ?thesis using s by blast
qed

text \<open>C4 as stated fails: the prior document has the key \<open>legacy\<close>, which the catalog
  does not have; the write of the new configuration throws and the rollback writes
  \<open>legacy\<close> back.\<close>

theorem rollback_writes_stale_key_counterexample:
  "mcp_writes (fst (loadRecommendedServers (Arr [Rec (Str (js ''github'')) (Str (js ''r''))])
       (Some sampleContext)
       (sampleWorld\<lparr>mcp_steps := [WriteThrows None, WriteReturns None]\<rparr>)))
     = [[(js ''github'', tokenServer\<lparr>env := Some [(js ''GITHUB_TOKEN'', js ''ghp_1'')]\<rparr>)],
        [(js ''legacy'', plainServer)]]
   \<and> mcp_file (fst (loadRecommendedServers (Arr [Rec (Str (js ''github'')) (Str (js ''r''))])
       (Some sampleContext)
       (sampleWorld\<lparr>mcp_steps := [WriteThrows None, WriteReturns None]\<rparr>)))
     = Doc [(js ''legacy'', plainServer)]
   \<and> js ''legacy'' \<notin> fst ` set sampleCatalog"
  by (simp add: loader_defs sample_defs resolveValue_def)

subsection \<open>The hook initializer\<close>

lemma trim_eq_Nil_iff: "trim s = [] \<longleftrightarrow> list_all isWhiteSpace s"
proof -
  have "trim s = [] \<longleftrightarrow> (\<forall>c\<in>set (dropWhile isWhiteSpace s). isWhiteSpace c)"
    by (simp add: trim_def dropWhile_eq_Nil_conv)
  also have "\<dots> \<longleftrightarrow> (\<forall>c\<in>set s. isWhiteSpace c)"
  proof
    assume a: "\<forall>c\<in>set (dropWhile isWhiteSpace s). isWhiteSpace c"
    show "\<forall>c\<in>set s. isWhiteSpace c"
    proof
      fix c assume "c \<in> set s"
      then have "c \<in> set (takeWhile isWhiteSpace s) \<or> c \<in> set (dropWhile isWhiteSpace s)"
        by (metis Un_iff set_append takeWhile_dropWhile_id)
      with a show "isWhiteSpace c" by (auto dest: set_takeWhileD)
    qed
  next
    assume "\<forall>c\<in>set s. isWhiteSpace c"
    then show "\<forall>c\<in>set (dropWhile isWhiteSpace s). isWhiteSpace c"
      by (auto dest: set_dropWhileD)
  qed
  finally show ?thesis by (simp add: list_all_iff)
qed

lemma generated_hook_valid: "validateHookConfig createHookConfig"
  by (simp add: validateHookConfig_def createHookConfig_def generatePrompt_def validWhenTypes_def
      trim_eq_Nil_iff isWhiteSpace_def)

lemma createHook_returns:
  assumes "fst (takeStep (hook_steps w)) = WriteReturns None"
  shows "createHook config w =
     (w\<lparr>hook_file := HookDoc config, hook_steps := snd (takeStep (hook_steps w)),
        hook_writes := hook_writes w @ [config]\<rparr>, Inr ())"
  using assms by (cases "takeStep (hook_steps w)") (simp add: createHook_def)

lemma ensureHook_existing: "hook_file w \<noteq> HookAbsent \<Longrightarrow> ensureHook cx w = w"
  by (cases "hook_file w") (simp_all add: ensureHook_def)

lemma ensureHook_creates:
  assumes "workspace w" and "hook_file w = HookAbsent"
    and "fst (takeStep (hook_steps w)) = WriteReturns None"
  shows "ensureHook cx w =
     w\<lparr>hook_file := HookDoc createHookConfig, hook_steps := snd (takeStep (hook_steps w)),
       hook_writes := hook_writes w @ [createHookConfig],
       shown := shown w @ [InfoHookCreated]\<rparr>"
  using assms by (simp add: ensureHook_def generated_hook_valid createHook_returns)

text \<open>
  C8. For every state: when the hook document exists, whatever its content,
  \<open>ensureHook\<close> changes nothing, so nothing is handed to \<open>writeFile\<close> and the document
  stays as it is; hence a second call that finds the document left by the first is a
  no-op. Starting without a hook document, in a workspace where the write returns, two
  consecutive calls hand exactly one document to \<open>writeFile\<close>, the generated one.
\<close>

theorem existing_hook_not_rewritten:
  "(hook_file w \<noteq> HookAbsent \<longrightarrow>
      ensureHook cx w = w
      \<and> hook_writes (ensureHook cx w) = hook_writes w
      \<and> hook_file (ensureHook cx w) = hook_file w)
   \<and> (hook_file (ensureHook cx w) \<noteq> HookAbsent \<longrightarrow>
        ensureHook cx (ensureHook cx w) = ensureHook cx w)
   \<and> (workspace w \<and> hook_file w = HookAbsent
        \<and> fst (takeStep (hook_steps w)) = WriteReturns None \<longrightarrow>
        hook_writes (ensureHook cx w) = hook_writes w @ [createHookConfig]
        \<and> hook_writes (ensureHook cx (ensureHook cx w)) = hook_writes w @ [createHookConfig]
        \<and> hook_file (ensureHook cx (ensureHook cx w)) = HookDoc createHookConfig)"
proof (intro conjI impI)
  assume "hook_file w \<noteq> HookAbsent"
  then show "ensureHook cx w = w" by (rule ensureHook_existing)
  then show "hook_writes (ensureHook cx w) = hook_writes w"
    and "hook_file (ensureHook cx w) = hook_file w" by simp_all
next
  assume "hook_file (ensureHook cx w) \<noteq> HookAbsent"
  then show "ensureHook cx (ensureHook cx w) = ensureHook cx w" by (rule ensureHook_existing)
next
  assume a: "workspace w \<and> hook_file w = HookAbsent
        \<and> fst (takeStep (hook_steps w)) = WriteReturns None"
  then have 1: "ensureHook cx w =
     w\<lparr>hook_file := HookDoc createHookConfig, hook_steps := snd (takeStep (hook_steps w)),
       hook_writes := hook_writes w @ [createHookConfig],
       shown := shown w @ [InfoHookCreated]\<rparr>"
    by (intro ensureHook_creates) simp_all
  then have "hook_file (ensureHook cx w) \<noteq> HookAbsent" by simp
  then have 2: "ensureHook cx (ensureHook cx w) = ensureHook cx w" by (rule ensureHook_existing)
  show "hook_writes (ensureHook cx w) = hook_writes w @ [createHookConfig]" by (simp add: 1)
  show "hook_writes (ensureHook cx (ensureHook cx w)) = hook_writes w @ [createHookConfig]"
    unfolding 2 by (simp add: 1)
  show "hook_file (ensureHook cx (ensureHook cx w)) = HookDoc createHookConfig"
    unfolding 2 by (simp add: 1)
qed

text \<open>Two calls in the sample workspace, and one call on a customised, incomplete hook.\<close>

theorem existing_hook_not_rewritten_witness:
  "hook_writes (ensureHook sampleContext (ensureHook sampleContext sampleWorld)) = [createHookConfig]
   \<and> hook_file (ensureHook sampleContext (ensureHook sampleContext sampleWorld))
       = HookDoc createHookConfig
   \<and> ensureHook sampleContext (sampleWorld\<lparr>hook_file := HookIncomplete\<rparr>)
       = sampleWorld\<lparr>hook_file := HookIncomplete\<rparr>"
proof -
  have 1: "workspace sampleWorld \<and> hook_file sampleWorld = HookAbsent
        \<and> fst (takeStep (hook_steps sampleWorld)) = WriteReturns None"
    by (simp add: sampleWorld_def takeStep_def)
  have 2: "hook_file (sampleWorld\<lparr>hook_file := HookIncomplete\<rparr>) \<noteq> HookAbsent" by simp
  have 3: "hook_writes sampleWorld = []" by (simp add: sampleWorld_def)
  from existing_hook_not_rewritten [of sampleWorld sampleContext] 1 3
    existing_hook_not_rewritten [of "sampleWorld\<lparr>hook_file := HookIncomplete\<rparr>" sampleContext] 2
  show ?thesis by simp
qed

end
